theory Spec2Isabelle
  imports Complex_Main "HOL-Library.Product_Lexorder"
begin

section \<open>Errors shared by the three subsystems\<close>

text \<open>
  Every throw and every undefined access of the C++ code is a value of this type:
  \<^item> \<open>FatalError\<close>: a \<open>throw FATALERROR(...)\<close> of the source, with its message;
  \<^item> \<open>DivisionByZero\<close>: an integer division whose divisor is zero (undefined in C++);
  \<^item> \<open>IndexOutOfRange\<close>: \<open>operator[]\<close> on a vector or array outside its bounds
    (undefined in C++).
\<close>

datatype error = FatalError string | DivisionByZero | IndexOutOfRange

definition bindE :: "error + 'a \<Rightarrow> ('a \<Rightarrow> error + 'b) \<Rightarrow> error + 'b" where
  "bindE m f = (case m of Inl e \<Rightarrow> Inl e | Inr v \<Rightarrow> f v)"


section \<open>Parallel: the worker pool (Parallel.cpp)\<close>

text \<open>
  \<open>size_t\<close> is the 64-bit unsigned type; its values are naturals below \<open>2 ^ 64\<close> and
  its arithmetic wraps around, which is written out where the source computes.
\<close>

definition size_t_max :: nat where
  "size_t_max = 2 ^ 64"

definition to_size_t :: "int \<Rightarrow> nat" where
  "to_size_t i = nat (i mod int size_t_max)"

definition size_t_sub :: "nat \<Rightarrow> nat \<Rightarrow> nat" where
  "size_t_sub a b = (if b \<le> a then a - b else size_t_max - (b - a))"

text \<open>
  The shared data members of \<open>Parallel\<close> that the chunk dispenser reads and writes.
  \<open>exception\<close> is the stored exception pointer (\<open>None\<close> is \<open>nullptr\<close>);
  \<open>parentThread\<close> identifies the constructing thread.
\<close>

record Parallel =
  threadCount :: int
  parentThread :: nat
  numChunks :: nat
  chunkSize :: nat
  maxIndex :: nat
  "next" :: nat
  exception :: "error option"

text \<open>
  The target \<open>std::function<void(size_t,size_t)>\<close> is modelled by what the pool can
  observe of it: for a call \<open>(firstIndex, numIndices)\<close> it either returns (\<open>None\<close>) or
  throws (\<open>Some e\<close>).
\<close>

type_synonym target = "nat \<Rightarrow> nat \<Rightarrow> error option"

text \<open>\<open>Parallel::reportException\<close>: only the first exception is stored; it takes the
  remaining work away by zeroing \<open>_numChunks\<close>.\<close>

definition reportException :: "error \<Rightarrow> Parallel \<Rightarrow> Parallel" where
  "reportException e p =
     (if exception p = None then p\<lparr>exception := Some e, numChunks := 0\<rparr> else p)"

text \<open>
  \<open>Parallel::doWork\<close>. The atomic \<open>_next++\<close> linearises the fetches of all threads, so
  the chunks are dispensed in the order of the fetched indices whichever thread runs each
  of them; the model runs the loop once over that order and records each invocation of
  the target as a pair \<open>(firstIndex, numIndices)\<close>. A throw leaves the loop through the
  \<open>catch\<close> clause.
\<close>

function doWork :: "target \<Rightarrow> Parallel \<Rightarrow> (nat \<times> nat) list \<Rightarrow> Parallel \<times> (nat \<times> nat) list" where
  "doWork tgt p calls =
     (let chunkIndex = next p;
          p1 = p\<lparr>next := next p + 1\<rparr>
      in if chunkIndex \<ge> numChunks p1 then (p1, calls)
         else
           let firstIndex = (chunkIndex * chunkSize p1) mod size_t_max;
               numIndices = min (chunkSize p1) (size_t_sub (maxIndex p1) firstIndex)
           in case tgt firstIndex numIndices of
                Some e \<Rightarrow> (reportException e p1, calls @ [(firstIndex, numIndices)])
              | None \<Rightarrow> doWork tgt p1 (calls @ [(firstIndex, numIndices)]))"
  by pat_completeness auto
termination
  by (relation "measure (\<lambda>(tgt, p, calls). numChunks p - next p)") auto

declare doWork.simps [simp del]

text \<open>
  \<open>Parallel::call\<close>, called from thread \<open>caller\<close>. It returns the list of target
  invocations, or the error that the source throws; the integer division
  \<open>_maxIndex / _numChunks\<close> is undefined for a zero divisor.
\<close>

definition call :: "Parallel \<Rightarrow> nat \<Rightarrow> target \<Rightarrow> nat \<Rightarrow> bool \<Rightarrow> error + (nat \<times> nat) list" where
  "call p caller tgt maxIdx useChunksOfSizeOne =
     (if caller \<noteq> parentThread p
      then Inl (FatalError ''Parallel call not invoked from thread that constructed this object'')
      else
        let nc0 = (if useChunksOfSizeOne then maxIdx else to_size_t (threadCount p * 8))
        in if nc0 = 0 then Inl DivisionByZero
           else
             let cs = maxIdx div nc0;
                 nc = (if (nc0 * cs) mod size_t_max < maxIdx then (nc0 + 1) mod size_t_max else nc0);
                 p1 = p\<lparr>maxIndex := maxIdx, numChunks := nc, chunkSize := cs,
                        exception := None, next := 0\<rparr>;
                 (p2, calls) = doWork tgt p1 []
             in case exception p2 of Some e \<Rightarrow> Inl e | None \<Rightarrow> Inr calls)"

text \<open>A pool as its constructor leaves it, for \<open>threadCount\<close> threads, built by thread 0.\<close>

definition newParallel :: "int \<Rightarrow> Parallel" where
  "newParallel n = \<lparr>threadCount = n, parentThread = 0, numChunks = 0, chunkSize = 0,
                     maxIndex = 0, next = 0, exception = None\<rparr>"

text \<open>A target that never throws.\<close>

definition quietTarget :: target where
  "quietTarget first count = None"

text \<open>The indices one invocation \<open>(firstIndex, numIndices)\<close> visits, and how often the
  invocations of a call visit index \<open>i\<close>.\<close>

definition visits :: "nat \<times> nat \<Rightarrow> nat \<Rightarrow> bool" where
  "visits c i = (fst c \<le> i \<and> i < fst c + snd c)"

definition visitCount :: "(nat \<times> nat) list \<Rightarrow> nat \<Rightarrow> nat" where
  "visitCount calls i = length (filter (\<lambda>c. visits c i) calls)"

text \<open>The invocation that \<open>doWork\<close> makes for chunk index \<open>idx\<close>.\<close>

definition chunkOf :: "Parallel \<Rightarrow> nat \<Rightarrow> nat \<times> nat" where
  "chunkOf p idx = ((idx * chunkSize p) mod size_t_max,
                    min (chunkSize p) (size_t_sub (maxIndex p) ((idx * chunkSize p) mod size_t_max)))"


section \<open>FluxRecorder: the detector arrays (FluxRecorder.cpp)\<close>

text \<open>
  An \<open>Array\<close> is a resizable array of doubles; a double is modelled by a real number, so
  that \<open>LockFree::add\<close> is the exact sum. \<open>Array::resize(n)\<close> leaves \<open>n\<close> zeros. The
  detector arrays of one family (\<open>_sed\<close>, \<open>_ifu\<close>, \<open>_wsed\<close>, \<open>_wifu\<close>) are a vector of
  arrays. Memory is taken to be unbounded, except that \<open>std::vector::resize\<close> throws
  \<open>std::length_error\<close> beyond \<open>max_size()\<close>, which no implementation puts above
  \<open>2 ^ 63\<close>.
\<close>

type_synonym Array = "real list"

text \<open>
  \<open>int\<close> is the 32-bit signed type. \<open>int32 i\<close> is the value that an \<open>int\<close>
  operation leaves when its mathematical result is \<open>i\<close>: the result itself when it lies
  in \<open>[- 2 ^ 31, 2 ^ 31)\<close>, and otherwise the two's complement wrap-around that the
  compiled code computes (signed overflow is undefined in C++).
\<close>

definition int32 :: "int \<Rightarrow> int" where
  "int32 i = (i + 2 ^ 31) mod 2 ^ 32 - 2 ^ 31"

text \<open>The anonymous enum of indices for the detector arrays, and the number of moments.\<close>

definition Total :: int where "Total = 0"
definition Transparent :: int where "Transparent = 1"
definition PrimaryDirect :: int where "PrimaryDirect = 2"
definition PrimaryScattered :: int where "PrimaryScattered = 3"
definition SecondaryDirect :: int where "SecondaryDirect = 4"
definition SecondaryScattered :: int where "SecondaryScattered = 5"
definition TotalQ :: int where "TotalQ = 6"
definition TotalU :: int where "TotalU = 7"
definition TotalV :: int where "TotalV = 8"
definition PrimaryScatteredLevel :: int where "PrimaryScatteredLevel = 9"

definition numStatMoments :: nat where "numStatMoments = 4"

text \<open>
  An index handed to \<open>operator[]\<close> is converted to \<open>size_t\<close>; a negative \<open>int\<close> becomes a
  value of at least \<open>2 ^ 64 - 2 ^ 31\<close>, beyond every vector. So an \<open>int\<close> index is in
  range exactly when it lies in \<open>[0, length)\<close>.
\<close>

definition inRange :: "int \<Rightarrow> 'a list \<Rightarrow> bool" where
  "inRange i xs = (0 \<le> i \<and> i < int (length xs))"

text \<open>\<open>arrs[ch].resize(n)\<close>\<close>

definition resizeAt :: "Array list \<Rightarrow> int \<Rightarrow> nat \<Rightarrow> error + Array list" where
  "resizeAt arrs ch n =
     (if inRange ch arrs then Inr (arrs[nat ch := replicate n 0]) else Inl IndexOutOfRange)"

text \<open>\<open>LockFree::add(arrs[ch][i], v)\<close>\<close>

definition addAt :: "Array list \<Rightarrow> int \<Rightarrow> int \<Rightarrow> real \<Rightarrow> error + Array list" where
  "addAt arrs ch i v =
     (if inRange ch arrs \<and> inRange i (arrs ! nat ch)
      then Inr (arrs[nat ch := (arrs ! nat ch)[nat i := arrs ! nat ch ! nat i + v]])
      else Inl IndexOutOfRange)"

text \<open>\<open>std::vector<Array>::resize(n)\<close>: cut, or padded with empty arrays.\<close>

definition resizeVector :: "nat \<Rightarrow> Array list \<Rightarrow> error + Array list" where
  "resizeVector n arrs =
     (if n \<ge> 2 ^ 63 then Inl (FatalError ''std::length_error'')
      else Inr (take n arrs @ replicate (n - length arrs) []))"

text \<open>The class \<open>Contribution\<close> and the class \<open>ContributionList\<close>.\<close>

record Contribution =
  c_ell :: int
  c_l :: int
  c_w :: real

record ContributionList =
  listHistoryIndex :: nat
  contributions :: "Contribution list"

definition hasHistoryIndex :: "ContributionList \<Rightarrow> nat \<Rightarrow> bool" where
  "hasHistoryIndex cl h = (listHistoryIndex cl = h)"

definition addContribution :: "ContributionList \<Rightarrow> int \<Rightarrow> int \<Rightarrow> real \<Rightarrow> ContributionList" where
  "addContribution cl e p v =
     cl\<lparr>contributions := contributions cl @ [\<lparr>c_ell = e, c_l = p, c_w = v\<rparr>]\<rparr>"

definition reset :: "nat \<Rightarrow> ContributionList" where
  "reset h = \<lparr>listHistoryIndex = h, contributions = []\<rparr>"

text \<open>\<open>ContributionList::sort\<close> orders on \<open>(ell, l)\<close>, lexicographically
  (\<open>Contribution::operator<\<close>).\<close>

definition sortContributions :: "Contribution list \<Rightarrow> Contribution list" where
  "sortContributions cs = sort_key (\<lambda>c. (c_ell c, c_l c)) cs"

text \<open>What the recorder reads from a photon packet.\<close>

record PhotonPacket =
  lambda :: real
  numScatt :: int
  luminosity :: real
  hasPrimaryOrigin :: bool
  stokesQ :: real
  stokesU :: real
  stokesV :: real
  historyIndex :: nat

text \<open>
  The data members of \<open>FluxRecorder\<close> that \<open>finalizeConfiguration\<close>, \<open>detect\<close>,
  \<open>flush\<close> and \<open>recordContributions\<close> read or write. The wavelength grid
  \<open>_lambdagrid\<close> is an external object; the recorder uses its \<open>numWavelengths()\<close> and its
  \<open>ell(lambda)\<close>, which are the two \<open>lambdagrid\<close> fields. \<open>_contributionLists\<close> holds
  one list per thread, made when the thread first asks for it; it is an association
  list from the thread's index.
\<close>

record FluxRecorder =
  lambdagrid_numWavelengths :: int
  lambdagrid_ell :: "real \<Rightarrow> int"
  hasMedium :: bool
  hasMediumEmission :: bool
  recordComponents :: bool
  numScatteringLevels :: int
  recordPolarization :: bool
  recordStatistics :: bool
  includeFluxDensity :: bool
  includeSurfaceBrightness :: bool
  numPixelsX :: int
  numPixelsY :: int
  numPixelsInFrame :: nat
  recordTotalOnly :: bool
  sed :: "Array list"
  ifu :: "Array list"
  wsed :: "Array list"
  wifu :: "Array list"
  contributionLists :: "(nat \<times> ContributionList) list"

text \<open>\<open>_contributionLists.local()\<close> in thread \<open>t\<close>, and storing the thread's list back.\<close>

definition localList :: "(nat \<times> ContributionList) list \<Rightarrow> nat \<Rightarrow> ContributionList" where
  "localList ls t = (case map_of ls t of Some cl \<Rightarrow> cl | None \<Rightarrow> reset 0)"

fun setLocalList :: "(nat \<times> ContributionList) list \<Rightarrow> nat \<Rightarrow> ContributionList \<Rightarrow> (nat \<times> ContributionList) list" where
  "setLocalList [] t cl = [(t, cl)]"
| "setLocalList ((t', cl') # ls) t cl =
     (if t' = t then (t, cl) # ls else (t', cl') # setLocalList ls t cl)"

subsection \<open>finalizeConfiguration\<close>

text \<open>One line of the source: \<open>_sed[ch].resize(lenSED);  _ifu[ch].resize(lenIFU);\<close>\<close>

definition resizeBoth :: "Array list \<times> Array list \<Rightarrow> int \<Rightarrow> nat \<Rightarrow> nat \<Rightarrow> error + (Array list \<times> Array list)" where
  "resizeBoth p ch lenSED lenIFU =
     (case resizeAt (fst p) ch lenSED of
        Inl e \<Rightarrow> Inl e
      | Inr s' \<Rightarrow> (case resizeAt (snd p) ch lenIFU of
                    Inl e \<Rightarrow> Inl e
                  | Inr i' \<Rightarrow> Inr (s', i')))"

text \<open>
  The loop \<open>for (int i=0; i!=_numScatteringLevels; ++i)\<close>, entered with \<open>i\<close>. The loop
  is reached only after \<open>_sed.resize(PrimaryScatteredLevel + _numScatteringLevels)\<close> has
  succeeded, and it stops at the first index beyond that vector, so neither
  \<open>PrimaryScatteredLevel+i\<close> nor \<open>++i\<close> leaves the range of \<open>int\<close>.
\<close>

function resizeLevels :: "int \<Rightarrow> int \<Rightarrow> nat \<Rightarrow> nat \<Rightarrow> Array list \<times> Array list \<Rightarrow> error + (Array list \<times> Array list)" where
  "resizeLevels i S lenSED lenIFU p =
     (if i = S then Inr p
      else case resizeBoth p (PrimaryScatteredLevel + i) lenSED lenIFU of
             Inl e \<Rightarrow> Inl e
           | Inr p' \<Rightarrow> resizeLevels (i + 1) S lenSED lenIFU p')"
  by pat_completeness auto
termination
proof (relation "measure (\<lambda>(i, S, lenSED, lenIFU, p). nat (S - i) + nat (int (length (fst p)) - (PrimaryScatteredLevel + i)))")
  show "wf (measure (\<lambda>(i, S, lenSED, lenIFU, p). nat (S - i) + nat (int (length (fst p)) - (PrimaryScatteredLevel + i))))"
    by simp
next
  fix i S :: int and lenSED lenIFU :: nat and p p' :: "Array list \<times> Array list"
  assume "i \<noteq> S" and ok: "resizeBoth p (PrimaryScatteredLevel + i) lenSED lenIFU = Inr p'"
  from ok have "inRange (PrimaryScatteredLevel + i) (fst p) \<and> length (fst p') = length (fst p)"
    by (auto simp add: resizeBoth_def resizeAt_def split: if_splits sum.splits)
  then show "((i + 1, S, lenSED, lenIFU, p'), (i, S, lenSED, lenIFU, p))
        \<in> measure (\<lambda>(i, S, lenSED, lenIFU, p). nat (S - i) + nat (int (length (fst p)) - (PrimaryScatteredLevel + i)))"
    by (simp add: inRange_def) arith
qed

declare resizeLevels.simps [simp del]

text \<open>
  \<open>FluxRecorder::finalizeConfiguration\<close>. The product \<open>_numPixelsX * _numPixelsY\<close> and
  the sum \<open>PrimaryScatteredLevel + _numScatteringLevels\<close> are computed in \<open>int\<close> and then
  converted to \<open>size_t\<close>; \<open>lenIFU\<close> is computed in \<open>size_t\<close>.
\<close>

definition finalizeConfiguration :: "FluxRecorder \<Rightarrow> error + FluxRecorder" where
  "finalizeConfiguration s =
     (let npf = to_size_t (int32 (numPixelsX s * numPixelsY s));
          nw = to_size_t (lambdagrid_numWavelengths s);
          lenSED = (if includeFluxDensity s then nw else 0);
          lenIFU = (if includeSurfaceBrightness s then (npf * nw) mod size_t_max else 0);
          rto = (\<not> recordComponents s \<or> \<not> hasMedium s);
          n = to_size_t (int32 (PrimaryScatteredLevel + numScatteringLevels s))
      in bindE (resizeVector n (sed s)) (\<lambda>sed0.
         bindE (resizeVector n (ifu s)) (\<lambda>ifu0.
         bindE
           (if rto then resizeBoth (sed0, ifu0) Total lenSED lenIFU
            else
              bindE (resizeBoth (sed0, ifu0) Transparent lenSED lenIFU) (\<lambda>p.
              bindE (resizeBoth p PrimaryDirect lenSED lenIFU) (\<lambda>p.
              bindE (resizeBoth p PrimaryScattered lenSED lenIFU) (\<lambda>p.
              bindE (resizeLevels 0 (numScatteringLevels s) lenSED lenIFU p) (\<lambda>p.
              if hasMediumEmission s
              then bindE (resizeBoth p SecondaryDirect lenSED lenIFU) (\<lambda>p.
                   resizeBoth p SecondaryScattered lenSED lenIFU)
              else Inr p)))))
           (\<lambda>p.
         bindE
           (if recordPolarization s
            then bindE (resizeBoth p TotalQ lenSED lenIFU) (\<lambda>p.
                 bindE (resizeBoth p TotalU lenSED lenIFU) (\<lambda>p.
                 resizeBoth p TotalV lenSED lenIFU))
            else Inr p)
           (\<lambda>p.
         bindE
           (if recordStatistics s
            then bindE (resizeVector numStatMoments (wsed s)) (\<lambda>ws.
                 bindE (resizeVector numStatMoments (wifu s)) (\<lambda>wi.
                 Inr (map (\<lambda>a. replicate lenSED 0) ws, map (\<lambda>a. replicate lenIFU 0) wi)))
            else Inr (wsed s, wifu s))
           (\<lambda>wp.
         Inr (s\<lparr>numPixelsInFrame := npf, recordTotalOnly := rto,
                sed := fst p, ifu := snd p, wsed := fst wp, wifu := snd wp\<rparr>)))))))"

subsection \<open>recordContributions\<close>

text \<open>The inner loop \<open>for (int k=0; k!=numStatMoments; ++k) { wn *= w; add(arrs[k][i], wn); }\<close>
  with \<open>n\<close> rounds left.\<close>

fun addMoments :: "nat \<Rightarrow> int \<Rightarrow> real \<Rightarrow> real \<Rightarrow> Array list \<Rightarrow> int \<Rightarrow> error + Array list" where
  "addMoments 0 k wn wt arrs i = Inr arrs"
| "addMoments (Suc n) k wn wt arrs i =
     bindE (addAt arrs k i (wn * wt)) (\<lambda>arrs'. addMoments n (k + 1) (wn * wt) wt arrs' i)"

text \<open>
  The loop over the sorted contributions for SEDs: \<open>wt\<close> is the running sum \<open>w\<close>, the
  list is \<open>contributions[i..]\<close>, and \<open>i+1 == numContributions\<close> is the test that no
  contribution follows.
\<close>

fun foldSED :: "Contribution list \<Rightarrow> real \<Rightarrow> Array list \<Rightarrow> error + Array list" where
  "foldSED [] wt arrs = Inr arrs"
| "foldSED (c # cs) wt arrs =
     (let wt' = wt + c_w c
      in if cs = [] \<or> c_ell c \<noteq> c_ell (hd cs)
         then bindE (addMoments numStatMoments 0 1 wt' arrs (c_ell c)) (\<lambda>arrs'. foldSED cs 0 arrs')
         else foldSED cs wt' arrs)"

text \<open>
  The loop for IFUs. \<open>size_t lell = l + ell*_numPixelsInFrame\<close> is computed in \<open>size_t\<close>:
  both \<open>int\<close> operands are converted and the arithmetic wraps.
\<close>

definition lellOf :: "nat \<Rightarrow> int \<Rightarrow> int \<Rightarrow> nat" where
  "lellOf npf e p = to_size_t (p + e * int npf)"

fun foldIFU :: "nat \<Rightarrow> Contribution list \<Rightarrow> real \<Rightarrow> Array list \<Rightarrow> error + Array list" where
  "foldIFU npf [] wt arrs = Inr arrs"
| "foldIFU npf (c # cs) wt arrs =
     (let wt' = wt + c_w c
      in if cs = [] \<or> c_ell c \<noteq> c_ell (hd cs) \<or> c_l c \<noteq> c_l (hd cs)
         then bindE (addMoments numStatMoments 0 1 wt' arrs (int (lellOf npf (c_ell c) (c_l c))))
                (\<lambda>arrs'. foldIFU npf cs 0 arrs')
         else foldIFU npf cs wt' arrs)"

text \<open>\<open>FluxRecorder::recordContributions\<close>. It sorts the list it is given in place; both
  callers reset that list right after the call, so the model returns the recorder only.\<close>

definition recordContributions :: "FluxRecorder \<Rightarrow> ContributionList \<Rightarrow> error + FluxRecorder" where
  "recordContributions s cl =
     (let cs = sortContributions (contributions cl)
      in bindE (if includeFluxDensity s then foldSED cs 0 (wsed s) else Inr (wsed s)) (\<lambda>ws.
         bindE (if includeSurfaceBrightness s then foldIFU (numPixelsInFrame s) cs 0 (wifu s)
                else Inr (wifu s)) (\<lambda>wi.
         Inr (s\<lparr>wsed := ws, wifu := wi\<rparr>))))"

subsection \<open>detect\<close>

text \<open>
  The source records in the SED arrays and in the IFU arrays with the same statements,
  once on \<open>_sed\<close> at index \<open>ell\<close> and once on \<open>_ifu\<close> at index \<open>lell\<close>; \<open>recordFlux\<close> is
  that block of statements for the family \<open>arrs\<close> at index \<open>i\<close>.
\<close>

definition recordFlux :: "FluxRecorder \<Rightarrow> PhotonPacket \<Rightarrow> real \<Rightarrow> Array list \<Rightarrow> int \<Rightarrow> error + Array list" where
  "recordFlux s pp tau arrs i =
     (let L = luminosity pp;
          Lext = L * exp (- tau)
      in bindE
           (if recordTotalOnly s then addAt arrs Total i L
            else if hasPrimaryOrigin pp then
              (if numScatt pp = 0
               then bindE (addAt arrs Transparent i L) (\<lambda>a. addAt a PrimaryDirect i Lext)
               else bindE (addAt arrs PrimaryScattered i Lext) (\<lambda>a.
                      if numScatt pp \<le> numScatteringLevels s
                      then addAt a (PrimaryScatteredLevel + numScatt pp - 1) i Lext
                      else Inr a))
            else
              (if numScatt pp = 0 then addAt arrs SecondaryDirect i Lext
               else addAt arrs SecondaryScattered i Lext))
           (\<lambda>a.
             if recordPolarization s
             then bindE (addAt a TotalQ i (Lext * stokesQ pp)) (\<lambda>a.
                  bindE (addAt a TotalU i (Lext * stokesU pp)) (\<lambda>a.
                  addAt a TotalV i (Lext * stokesV pp)))
             else Inr a))"

text \<open>\<open>FluxRecorder::detect\<close>, run by thread \<open>thread\<close>.\<close>

definition detect :: "nat \<Rightarrow> FluxRecorder \<Rightarrow> PhotonPacket \<Rightarrow> int \<Rightarrow> real \<Rightarrow> error + FluxRecorder" where
  "detect thread s pp l tau =
     (let ell = lambdagrid_ell s (lambda pp);
          Lext = luminosity pp * exp (- tau)
      in bindE (if includeFluxDensity s then recordFlux s pp tau (sed s) ell else Inr (sed s)) (\<lambda>sed'.
         bindE (if includeSurfaceBrightness s \<and> l \<ge> 0
                then recordFlux s pp tau (ifu s) (int (lellOf (numPixelsInFrame s) ell l))
                else Inr (ifu s)) (\<lambda>ifu'.
         let s1 = s\<lparr>sed := sed', ifu := ifu'\<rparr>
         in if recordStatistics s1
            then
              let cl = localList (contributionLists s1) thread
              in bindE
                   (if \<not> hasHistoryIndex cl (historyIndex pp)
                    then bindE (recordContributions s1 cl) (\<lambda>s2. Inr (s2, reset (historyIndex pp)))
                    else Inr (s1, cl))
                   (\<lambda>r. Inr ((fst r)\<lparr>contributionLists :=
                                setLocalList (contributionLists (fst r)) thread
                                  (addContribution (snd r) ell l Lext)\<rparr>))
            else Inr s1)))"

subsection \<open>flush\<close>

text \<open>The loop of \<open>flush\<close> over \<open>_contributionLists.all()\<close>: each list is folded into the
  moment arrays and then reset.\<close>

fun flushLists :: "FluxRecorder \<Rightarrow> (nat \<times> ContributionList) list \<Rightarrow> error + (FluxRecorder \<times> (nat \<times> ContributionList) list)" where
  "flushLists s [] = Inr (s, [])"
| "flushLists s (tc # rest) =
     bindE (recordContributions s (snd tc)) (\<lambda>s1.
     bindE (flushLists s1 rest) (\<lambda>r.
     Inr (fst r, (fst tc, reset 0) # snd r)))"

definition flush :: "FluxRecorder \<Rightarrow> error + FluxRecorder" where
  "flush s = bindE (flushLists s (contributionLists s)) (\<lambda>r.
               Inr ((fst r)\<lparr>contributionLists := snd r\<rparr>))"


subsection \<open>Vocabulary for the statements about the recorder\<close>

text \<open>
  The definitions of this subsection are not code of the recorder: they name what the
  theorems below say about it.
\<close>

text \<open>The channels of a family that hold a non-empty array.\<close>

definition nonEmptyChannels :: "Array list \<Rightarrow> int set" where
  "nonEmptyChannels arrs = {ch. inRange ch arrs \<and> arrs ! nat ch \<noteq> []}"

text \<open>What the loop over the scattering levels, entered with \<open>i\<close>, leaves of a family.\<close>

definition levelsSet :: "int \<Rightarrow> nat \<Rightarrow> Array list \<Rightarrow> Array list" where
  "levelsSet i n arrs =
     map (\<lambda>k. if PrimaryScatteredLevel + i \<le> int k then replicate n 0 else arrs ! k) [0..<length arrs]"

text \<open>The lengths \<open>lenSED\<close> and \<open>lenIFU\<close> that \<open>finalizeConfiguration\<close> computes.\<close>

definition lenSEDof :: "FluxRecorder \<Rightarrow> nat" where
  "lenSEDof s = (if includeFluxDensity s then to_size_t (lambdagrid_numWavelengths s) else 0)"

definition lenIFUof :: "FluxRecorder \<Rightarrow> nat" where
  "lenIFUof s = (if includeSurfaceBrightness s
                 then (to_size_t (int32 (numPixelsX s * numPixelsY s)) * to_size_t (lambdagrid_numWavelengths s)) mod size_t_max
                 else 0)"

text \<open>
  The channels that \<open>finalizeConfiguration\<close> resizes, read off its branches: \<open>Total\<close>
  when only the total is recorded; otherwise the transparent and the two primary
  channels and the scattering levels, and the two secondary channels when the medium
  emits; and the three Stokes channels whenever polarization is recorded.
\<close>

definition allocatedChannel :: "FluxRecorder \<Rightarrow> int \<Rightarrow> bool" where
  "allocatedChannel s ch =
     (let rto = (\<not> recordComponents s \<or> \<not> hasMedium s)
      in (rto \<and> ch = Total)
       \<or> (\<not> rto \<and> (ch = Transparent \<or> ch = PrimaryDirect \<or> ch = PrimaryScattered))
       \<or> (\<not> rto \<and> hasMediumEmission s \<and> (ch = SecondaryDirect \<or> ch = SecondaryScattered))
       \<or> (recordPolarization s \<and> (ch = TotalQ \<or> ch = TotalU \<or> ch = TotalV))
       \<or> (\<not> rto \<and> PrimaryScatteredLevel \<le> ch \<and> ch < PrimaryScatteredLevel + numScatteringLevels s))"

text \<open>
  The channels that the data model of the specification lists: \<open>{Total}\<close> or the five
  component channels, the latter optionally with the Stokes channels and the scattering
  levels.
\<close>

definition claimedChannel :: "FluxRecorder \<Rightarrow> int \<Rightarrow> bool" where
  "claimedChannel s ch =
     (if \<not> recordComponents s \<or> \<not> hasMedium s then ch = Total
      else (ch = Transparent \<or> ch = PrimaryDirect \<or> ch = PrimaryScattered
            \<or> ch = SecondaryDirect \<or> ch = SecondaryScattered)
         \<or> (recordPolarization s \<and> (ch = TotalQ \<or> ch = TotalU \<or> ch = TotalV))
         \<or> (PrimaryScatteredLevel \<le> ch \<and> ch < PrimaryScatteredLevel + numScatteringLevels s))"

text \<open>A family in which exactly the channels of \<open>allocatedChannel\<close> hold \<open>len\<close> zeros.\<close>

definition expectedFamily :: "FluxRecorder \<Rightarrow> nat \<Rightarrow> Array list" where
  "expectedFamily s len =
     map (\<lambda>k. if allocatedChannel s (int k) then replicate len 0 else [])
       [0..<nat (PrimaryScatteredLevel + numScatteringLevels s)]"

text \<open>Two families have the same shape; and \<open>b\<close> is \<open>a\<close> with \<open>f c j\<close> added to the
  cell \<open>j\<close> of channel \<open>c\<close>, for every cell.\<close>

definition sameShape :: "Array list \<Rightarrow> Array list \<Rightarrow> bool" where
  "sameShape a b = (map length a = map length b)"

definition added :: "Array list \<Rightarrow> Array list \<Rightarrow> (int \<Rightarrow> int \<Rightarrow> real) \<Rightarrow> bool" where
  "added a b f = (sameShape a b \<and>
     (\<forall>c < length a. \<forall>j < length (a ! c). b ! c ! j = a ! c ! j + f (int c) (int j)))"

text \<open>What \<open>recordFlux\<close> at index \<open>i\<close> adds to the cell \<open>j\<close> of channel \<open>c\<close>.\<close>

definition fluxDelta :: "FluxRecorder \<Rightarrow> PhotonPacket \<Rightarrow> real \<Rightarrow> int \<Rightarrow> int \<Rightarrow> int \<Rightarrow> real" where
  "fluxDelta s pp tau i c j =
     (let L = luminosity pp; Lext = L * exp (- tau); n = numScatt pp
      in if j \<noteq> i then 0
         else
          (if recordTotalOnly s then (if c = Total then L else 0)
           else if hasPrimaryOrigin pp then
             (if n = 0 then (if c = Transparent then L else 0) + (if c = PrimaryDirect then Lext else 0)
              else (if c = PrimaryScattered then Lext else 0)
                 + (if n \<le> numScatteringLevels s \<and> c = PrimaryScatteredLevel + n - 1 then Lext else 0))
           else (if n = 0 then (if c = SecondaryDirect then Lext else 0)
                 else (if c = SecondaryScattered then Lext else 0)))
          + (if recordPolarization s
             then (if c = TotalQ then Lext * stokesQ pp else 0)
                + (if c = TotalU then Lext * stokesU pp else 0)
                + (if c = TotalV then Lext * stokesV pp else 0)
             else 0))"

text \<open>The last block of \<open>detect\<close> (statistics), on the recorder \<open>s1\<close> that holds the
  updated flux arrays; \<open>detect_unfold\<close> below shows that \<open>detect\<close> ends with it.\<close>

definition statisticsBlock :: "nat \<Rightarrow> FluxRecorder \<Rightarrow> PhotonPacket \<Rightarrow> int \<Rightarrow> real \<Rightarrow> error + FluxRecorder" where
  "statisticsBlock thread s1 pp l tau =
     (let ell = lambdagrid_ell s1 (lambda pp);
          Lext = luminosity pp * exp (- tau)
      in if recordStatistics s1
            then
              let cl = localList (contributionLists s1) thread
              in bindE
                   (if \<not> hasHistoryIndex cl (historyIndex pp)
                    then bindE (recordContributions s1 cl) (\<lambda>s2. Inr (s2, reset (historyIndex pp)))
                    else Inr (s1, cl))
                   (\<lambda>r. Inr ((fst r)\<lparr>contributionLists :=
                                setLocalList (contributionLists (fst r)) thread
                                  (addContribution (snd r) ell l Lext)\<rparr>))
            else Inr s1)"

text \<open>
  What a packet of primary origin with scatter count \<open>n\<close> adds to the cell \<open>j\<close> of SED
  channel \<open>ch\<close>, Stokes channels apart: \<open>L\<close> to \<open>Transparent\<close> and \<open>Lext\<close> to
  \<open>PrimaryDirect\<close> when \<open>n = 0\<close>; otherwise \<open>Lext\<close> to \<open>PrimaryScattered\<close> and, when
  \<open>n \<le> S\<close>, to the level channel \<open>PrimaryScatteredLevel + n - 1\<close>; all at \<open>ell\<close>.
\<close>

definition primarySedDelta :: "int \<Rightarrow> int \<Rightarrow> real \<Rightarrow> real \<Rightarrow> int \<Rightarrow> int \<Rightarrow> int \<Rightarrow> real" where
  "primarySedDelta S n L Lext ell ch j =
     (if j \<noteq> ell then 0
      else if n = 0 then (if ch = Transparent then L else if ch = PrimaryDirect then Lext else 0)
      else (if ch = PrimaryScattered then Lext
            else if n \<le> S \<and> ch = PrimaryScatteredLevel + n - 1 then Lext else 0))"

text \<open>
  No array of a family has \<open>2 ^ 63\<close> cells or more (true of every array that fits in
  memory); and a contribution whose IFU index \<open>lell\<close>, computed in \<open>size_t\<close>, is
  at least \<open>2 ^ 63\<close>.
\<close>

definition smallArrays :: "Array list \<Rightarrow> bool" where
  "smallArrays arrs = (\<forall>a \<in> set arrs. length a < 2 ^ 63)"

definition beyond :: "nat \<Rightarrow> Contribution \<Rightarrow> bool" where
  "beyond npf c = (lellOf npf (c_ell c) (c_l c) \<ge> 2 ^ 63)"

subsection \<open>Concrete recorders and packets\<close>

text \<open>A recorder as its constructor leaves it, on a wavelength grid of two bins that
  meet at wavelength 1.\<close>

definition emptyRecorder :: FluxRecorder where
  "emptyRecorder =
     \<lparr>lambdagrid_numWavelengths = 2, lambdagrid_ell = (\<lambda>lam. if lam < 1 then 0 else 1),
      hasMedium = False, hasMediumEmission = False, recordComponents = False,
      numScatteringLevels = 0, recordPolarization = False, recordStatistics = False,
      includeFluxDensity = False, includeSurfaceBrightness = False,
      numPixelsX = 0, numPixelsY = 0, numPixelsInFrame = 0, recordTotalOnly = False,
      sed = [], ifu = [], wsed = [], wifu = [], contributionLists = []\<rparr>"

text \<open>Components of a medium that does not emit, SED output.\<close>

definition cfgComponents :: FluxRecorder where
  "cfgComponents = emptyRecorder\<lparr>hasMedium := True, recordComponents := True,
                                  includeFluxDensity := True\<rparr>"

text \<open>Total flux only, with polarization, SED output.\<close>

definition cfgPolarized :: FluxRecorder where
  "cfgPolarized = emptyRecorder\<lparr>recordPolarization := True, includeFluxDensity := True\<rparr>"

text \<open>A finalized recorder for components with two scattering levels, SED output.\<close>

definition componentsRecorder :: FluxRecorder where
  "componentsRecorder = emptyRecorder\<lparr>hasMedium := True, recordComponents := True,
     numScatteringLevels := 2, includeFluxDensity := True,
     sed := [[], [0, 0], [0, 0], [0, 0], [], [], [], [], [], [0, 0], [0, 0]],
     ifu := [[], [], [], [], [], [], [], [], [], [], []]\<rparr>"

text \<open>A packet of primary origin, scattered twice, in wavelength bin 0, of luminosity 5.\<close>

definition scatteredTwice :: PhotonPacket where
  "scatteredTwice = \<lparr>lambda = 1 / 2, numScatt = 2, luminosity = 5, hasPrimaryOrigin = True,
                      stokesQ = 0, stokesU = 0, stokesV = 0, historyIndex = 7\<rparr>"

text \<open>A finalized recorder for the total flux with statistics, IFU output on a frame
  of one pixel; and the same recorder with a pending contribution of thread 0.\<close>

definition ifuRecorder :: FluxRecorder where
  "ifuRecorder = emptyRecorder\<lparr>recordStatistics := True, includeSurfaceBrightness := True,
     numPixelsX := 1, numPixelsY := 1, numPixelsInFrame := 1, recordTotalOnly := True,
     sed := [[], [], [], [], [], [], [], [], []],
     ifu := [[0, 0], [], [], [], [], [], [], [], []],
     wsed := [[], [], [], []],
     wifu := [[0, 0], [0, 0], [0, 0], [0, 0]]\<rparr>"

definition ifuRecorderPending :: FluxRecorder where
  "ifuRecorderPending = ifuRecorder\<lparr>contributionLists :=
     [(0, \<lparr>listHistoryIndex = 7, contributions = [\<lparr>c_ell = 1, c_l = 0, c_w = 2\<rparr>]\<rparr>)]\<rparr>"

text \<open>Two packets that miss the field of view of the instrument: one in wavelength
  bin 0 and one in wavelength bin 1.\<close>

definition missedBlue :: PhotonPacket where
  "missedBlue = \<lparr>lambda = 1 / 2, numScatt = 0, luminosity = 5, hasPrimaryOrigin = True,
                  stokesQ = 0, stokesU = 0, stokesV = 0, historyIndex = 7\<rparr>"

definition missedRed :: PhotonPacket where
  "missedRed = \<lparr>lambda = 3 / 2, numScatt = 0, luminosity = 5, hasPrimaryOrigin = True,
                 stokesQ = 0, stokesU = 0, stokesV = 0, historyIndex = 7\<rparr>"

text \<open>\<open>componentsRecorder\<close> after it has detected \<open>scatteredTwice\<close>.\<close>

definition componentsRecorderAfter :: FluxRecorder where
  "componentsRecorderAfter = componentsRecorder\<lparr>
     sed := [[], [0, 0], [0, 0], [5, 0], [], [], [], [], [], [0, 0], [5, 0]]\<rparr>"

text \<open>\<open>ifuRecorderPending\<close> after a flush.\<close>

definition ifuRecorderFolded :: FluxRecorder where
  "ifuRecorderFolded = ifuRecorder\<lparr>
     wifu := [[0, 2], [0, 4], [0, 8], [0, 16]],
     contributionLists := [(0, \<lparr>listHistoryIndex = 0, contributions = []\<rparr>)]\<rparr>"

text \<open>\<open>ifuRecorder\<close> after it has detected \<open>missedBlue\<close>, or \<open>missedRed\<close>; and the latter
  with its list folded into the moment arrays.\<close>

definition ifuRecorderMissedBlue :: FluxRecorder where
  "ifuRecorderMissedBlue = ifuRecorder\<lparr>contributionLists :=
     [(0, \<lparr>listHistoryIndex = 7, contributions = [\<lparr>c_ell = 0, c_l = - 1, c_w = 5\<rparr>]\<rparr>)]\<rparr>"

definition ifuRecorderMissedRed :: FluxRecorder where
  "ifuRecorderMissedRed = ifuRecorder\<lparr>contributionLists :=
     [(0, \<lparr>listHistoryIndex = 7, contributions = [\<lparr>c_ell = 1, c_l = - 1, c_w = 5\<rparr>]\<rparr>)]\<rparr>"

definition ifuRecorderMissedRedFolded :: FluxRecorder where
  "ifuRecorderMissedRedFolded = ifuRecorderMissedRed\<lparr>
     wifu := [[5, 0], [25, 0], [125, 0], [625, 0]]\<rparr>"

section \<open>VoronoiMeshSnapshot: the unstructured grid (VoronoiMeshSnapshot.cpp)\<close>

text \<open>
  Coordinates, lengths, masses and densities are doubles; they are modelled by real
  numbers. \<open>Vec\<close> is a point or vector of space (its components are named \<open>vx\<close>,
  \<open>vy\<close>, \<open>vz\<close> here, for the accessors \<open>x()\<close>, \<open>y()\<close>, \<open>z()\<close>), and \<open>Box\<close> an
  axis-aligned box. Both classes are declared outside the files at hand; the members
  used are the ones below.
\<close>

record Vec =
  vx :: real
  vy :: real
  vz :: real

definition vsub :: "Vec \<Rightarrow> Vec \<Rightarrow> Vec" where
  "vsub a b = \<lparr>vx = vx a - vx b, vy = vy a - vy b, vz = vz a - vz b\<rparr>"

definition vadd :: "Vec \<Rightarrow> Vec \<Rightarrow> Vec" where
  "vadd a b = \<lparr>vx = vx a + vx b, vy = vy a + vy b, vz = vz a + vz b\<rparr>"

definition vscale :: "real \<Rightarrow> Vec \<Rightarrow> Vec" where
  "vscale s a = \<lparr>vx = s * vx a, vy = s * vy a, vz = s * vz a\<rparr>"

definition dot :: "Vec \<Rightarrow> Vec \<Rightarrow> real" where
  "dot a b = vx a * vx b + vy a * vy b + vz a * vz b"

definition norm2 :: "Vec \<Rightarrow> real" where
  "norm2 a = dot a a"

record Box =
  xmin :: real
  ymin :: real
  zmin :: real
  xmax :: real
  ymax :: real
  zmax :: real

text \<open>Modelled from the spec: \<open>Box::contains\<close> is not in the files at hand; the
  specification writes \<open>p \<in> B\<close> for it, and \<open>B\<close> is the closed box.\<close>

definition contains :: "Box \<Rightarrow> Vec \<Rightarrow> bool" where
  "contains b p = (xmin b \<le> vx p \<and> vx p \<le> xmax b \<and> ymin b \<le> vy p \<and> vy p \<le> ymax b
                   \<and> zmin b \<le> vz p \<and> vz p \<le> zmax b)"

text \<open>\<open>Box::widths\<close>, and \<open>VoronoiMeshSnapshot::setExtent\<close>, which derives the tolerance
  \<open>_eps = 1e-12 * extent.widths().norm()\<close> from the domain.\<close>

definition widths :: "Box \<Rightarrow> Vec" where
  "widths b = \<lparr>vx = xmax b - xmin b, vy = ymax b - ymin b, vz = zmax b - zmin b\<rparr>"

definition epsOf :: "Box \<Rightarrow> real" where
  "epsOf b = 1 / 10 ^ 12 * sqrt (norm2 (widths b))"

text \<open>
  The class \<open>VoronoiCell\<close>: the enclosing box (its base class), the site position
  \<open>_r\<close>, the centroid \<open>_c\<close>, the volume and the list of neighbor indices. The fields
  carry the names of the accessors.
\<close>

record VoronoiCell = Box +
  position :: Vec
  centroid :: Vec
  volume :: real
  neighbors :: "int list"

definition squaredDistanceTo :: "VoronoiCell \<Rightarrow> Vec \<Rightarrow> real" where
  "squaredDistanceTo cell p = norm2 (vsub p (position cell))"


subsection \<open>readAndClose: masses and densities of the imported cells\<close>

text \<open>
  What \<open>readAndClose\<close> uses once the rows are read and the cells are built: the rows
  \<open>_propv\<close> (one array of properties per site), the cells, the column indices and the
  multiplier of the base class \<open>Snapshot\<close> (declared outside the files at hand), and
  what it writes: the densities \<open>_rhov\<close>, the total mass \<open>_mass\<close>, and the log, of
  which the model keeps the warnings.
\<close>

record MassImport =
  propv :: "Array list"
  cellv :: "VoronoiCell list"
  massIndex :: int
  densityIndex :: int
  metallicityIndex :: int
  multiplier :: real
  rhov :: Array
  mass :: real
  warnings :: "string list"

text \<open>\<open>prop[i]\<close> for an \<open>int\<close> index, and \<open>_cells[m]\<close>.\<close>

definition propAt :: "Array \<Rightarrow> int \<Rightarrow> error + real" where
  "propAt prop i = (if inRange i prop then Inr (prop ! nat i) else Inl IndexOutOfRange)"

definition cellAt :: "VoronoiCell list \<Rightarrow> nat \<Rightarrow> error + VoronoiCell" where
  "cellAt cs m = (if m < length cs then Inr (cs ! m) else Inl IndexOutOfRange)"

text \<open>The three masses of the row \<open>prop\<close> of cell \<open>cell\<close>, as the body of the loop computes
  them: \<open>(originalMass, metallicMass, effectiveMass)\<close>.\<close>

definition rowMasses :: "MassImport \<Rightarrow> Array \<Rightarrow> VoronoiCell \<Rightarrow> error + (real \<times> real \<times> real)" where
  "rowMasses s prop cell =
     bindE (if massIndex s \<noteq> 0 then propAt prop (massIndex s)
            else bindE (propAt prop (densityIndex s)) (\<lambda>d. Inr (d * volume cell))) (\<lambda>originalMass.
     bindE (if metallicityIndex s \<ge> 0 then propAt prop (metallicityIndex s) else Inr 1) (\<lambda>z.
     let metallicMass = max 0 (originalMass * z);
         effectiveMass = metallicMass * multiplier s
     in Inr (originalMass, metallicMass, effectiveMass)))"

text \<open>
  The loop \<open>for (size_t m=0; m!=n; ++m)\<close>, entered with \<open>m\<close>; the state is the
  densities written so far and the three running totals
  \<open>(totalOriginalMass, totalMetallicMass, totalEffectiveMass)\<close>.
\<close>

function massLoop :: "MassImport \<Rightarrow> nat \<Rightarrow> Array \<Rightarrow> real \<times> real \<times> real \<Rightarrow> error + (Array \<times> real \<times> real \<times> real)" where
  "massLoop s m rho tot =
     (if m \<ge> length (propv s) then Inr (rho, tot)
      else
        case cellAt (cellv s) m of
          Inl e \<Rightarrow> Inl e
        | Inr cell \<Rightarrow>
           (case rowMasses s (propv s ! m) cell of
              Inl e \<Rightarrow> Inl e
            | Inr (originalMass, metallicMass, effectiveMass) \<Rightarrow>
                massLoop s (m + 1) (rho[m := effectiveMass / volume cell])
                  (fst tot + originalMass, fst (snd tot) + metallicMass,
                   snd (snd tot) + effectiveMass)))"
  by pat_completeness auto
termination
  by (relation "measure (\<lambda>(s, m, rho, tot). length (propv s) - m)") auto

declare massLoop.simps [simp del]

text \<open>
  The block of \<open>readAndClose\<close> under \<open>if (hasMassDensityPolicy())\<close>, up to
  \<open>_mass = totalEffectiveMass\<close>. What follows in the source builds the cumulative
  distribution and the search structure from the data kept here, when \<open>_propv\<close> is not
  empty, and throws nothing.
\<close>

definition readAndClose_masses :: "MassImport \<Rightarrow> error + MassImport" where
  "readAndClose_masses s =
     (let n = length (propv s)
      in bindE (massLoop s 0 (replicate n 0) (0, 0, 0)) (\<lambda>r.
         let rho = fst r;
             totalOriginalMass = fst (snd r);
             totalMetallicMass = fst (snd (snd r));
             totalEffectiveMass = snd (snd (snd r))
         in if totalOriginalMass < 0 \<or> totalMetallicMass < 0 \<or> totalEffectiveMass < 0
            then Inr (s\<lparr>propv := [], cellv := [], rhov := [], mass := 0,
                        warnings := warnings s @
                          [''  Total imported mass is negative; suppressing the complete mass distribution'']\<rparr>)
            else Inr (s\<lparr>rhov := rho, mass := totalEffectiveMass\<rparr>)))"

subsection \<open>Vocabulary for the statements about the masses\<close>

text \<open>Every row can be read: the columns used exist in it, and it has a cell.\<close>

definition rowsReadable :: "MassImport \<Rightarrow> bool" where
  "rowsReadable s =
     (length (propv s) \<le> length (cellv s)
      \<and> (\<forall>prop \<in> set (propv s).
            (if massIndex s \<noteq> 0 then inRange (massIndex s) prop else inRange (densityIndex s) prop)
          \<and> (metallicityIndex s \<ge> 0 \<longrightarrow> inRange (metallicityIndex s) prop)))"

text \<open>The three masses of row \<open>m\<close> and their totals over all rows.\<close>

definition originalMassOf :: "MassImport \<Rightarrow> nat \<Rightarrow> real" where
  "originalMassOf s m =
     (if massIndex s \<noteq> 0 then propv s ! m ! nat (massIndex s)
      else propv s ! m ! nat (densityIndex s) * volume (cellv s ! m))"

definition metallicMassOf :: "MassImport \<Rightarrow> nat \<Rightarrow> real" where
  "metallicMassOf s m =
     max 0 (originalMassOf s m *
            (if metallicityIndex s \<ge> 0 then propv s ! m ! nat (metallicityIndex s) else 1))"

definition effectiveMassOf :: "MassImport \<Rightarrow> nat \<Rightarrow> real" where
  "effectiveMassOf s m = metallicMassOf s m * multiplier s"

definition totalOf :: "(nat \<Rightarrow> real) \<Rightarrow> nat \<Rightarrow> real" where
  "totalOf f n = sum_list (map f [0..<n])"

definition someTotalNegative :: "MassImport \<Rightarrow> bool" where
  "someTotalNegative s =
     (totalOf (originalMassOf s) (length (propv s)) < 0
      \<or> totalOf (metallicMassOf s) (length (propv s)) < 0
      \<or> totalOf (effectiveMassOf s) (length (propv s)) < 0)"

text \<open>The densities after the loop has run from row \<open>m\<close> on the array \<open>rho\<close>.\<close>

definition densitiesFrom :: "MassImport \<Rightarrow> nat \<Rightarrow> Array \<Rightarrow> Array" where
  "densitiesFrom s m rho =
     take m rho @ map (\<lambda>k. effectiveMassOf s k / volume (cellv s ! k)) [m..<length (propv s)]"

text \<open>One site with the mass column 3 holding mass 0, in a cell of volume 1.\<close>

definition unitCell :: VoronoiCell where
  "unitCell = \<lparr>xmin = 0, ymin = 0, zmin = 0, xmax = 1, ymax = 1, zmax = 1,
               position = \<lparr>vx = 1 / 2, vy = 1 / 2, vz = 1 / 2\<rparr>,
               centroid = \<lparr>vx = 1 / 2, vy = 1 / 2, vz = 1 / 2\<rparr>,
               volume = 1, neighbors = [- 1, - 2, - 3, - 4, - 5, - 6]\<rparr>"

definition masslessImport :: MassImport where
  "masslessImport = \<lparr>propv = [[1 / 2, 1 / 2, 1 / 2, 0]], cellv = [unitCell],
                      massIndex = 3, densityIndex = 0, metallicityIndex = - 1, multiplier = 1,
                      rhov = [], mass = 0, warnings = []\<rparr>"

text \<open>The same site with mass \<open>- 1\<close>.\<close>

definition negativeImport :: MassImport where
  "negativeImport = masslessImport\<lparr>propv := [[1 / 2, 1 / 2, 1 / 2, - 1]]\<rparr>"


section \<open>Basic facts\<close>

lemmas channel_defs = Total_def Transparent_def PrimaryDirect_def PrimaryScattered_def
  SecondaryDirect_def SecondaryScattered_def TotalQ_def TotalU_def TotalV_def
  PrimaryScatteredLevel_def

lemma bindE_Inr [simp]: "bindE (Inr v) f = f v"
  by (simp add: bindE_def)

lemma bindE_Inl [simp]: "bindE (Inl e) f = Inl e"
  by (simp add: bindE_def)

lemma bindE_eq_Inr: "bindE m f = Inr r \<longleftrightarrow> (\<exists>v. m = Inr v \<and> f v = Inr r)"
  by (cases m) simp_all


section \<open>Parallel: what the chunk dispenser hands out\<close>



lemma chunkOf_next [simp]: "chunkOf (p\<lparr>next := n\<rparr>) = chunkOf p"
  by (simp add: chunkOf_def fun_eq_iff)

text \<open>With a target that never throws, \<open>doWork\<close> dispenses the chunks
  \<open>next, ..., numChunks - 1\<close> in order, each exactly once.\<close>

lemma doWork_quiet_gen:
  "tgt = quietTarget \<Longrightarrow> doWork tgt p calls =
     (p\<lparr>next := max (next p) (numChunks p) + 1\<rparr>, calls @ map (chunkOf p) [next p ..< numChunks p])"
proof (induction tgt p calls rule: doWork.induct)
  case (1 tgt p calls)
  show ?case
  proof (cases "next p \<ge> numChunks p")
    case True
    then show ?thesis
      by (subst doWork.simps) (simp add: Let_def max_def)
  next
    case False
    then have lt: "next p < numChunks p" by simp
    have q: "tgt a b = None" for a b
      using "1.prems" by (simp add: quietTarget_def)
    have ih: "doWork tgt (p\<lparr>next := next p + 1\<rparr>) (calls @ [chunkOf p (next p)]) =
        (p\<lparr>next := max (next p + 1) (numChunks p) + 1\<rparr>,
         (calls @ [chunkOf p (next p)]) @ map (chunkOf p) [next p + 1 ..< numChunks p])"
      using "1.IH"[OF refl refl _ refl refl q "1.prems"] lt
      by (simp add: chunkOf_def)
    have up: "[next p ..< numChunks p] = next p # [next p + 1 ..< numChunks p]"
      using lt by (simp add: upt_conv_Cons)
    have step: "doWork tgt p calls = doWork tgt (p\<lparr>next := next p + 1\<rparr>) (calls @ [chunkOf p (next p)])"
      using lt q by (subst doWork.simps) (simp add: Let_def chunkOf_def)
    show ?thesis
      unfolding step ih up using lt by (simp add: max_def)
  qed
qed

lemmas doWork_quiet = doWork_quiet_gen [OF refl]

text \<open>
  C3. The claim: for every \<open>N > 0\<close> and \<open>threadCount \<ge> 1\<close> the chunks that
  \<open>call(body, N, chunksOfOne)\<close> dispenses partition \<open>[0, N)\<close>: every index is visited by
  exactly one invocation and the counts sum to \<open>N\<close>.
  The code computes \<open>_chunkSize = _maxIndex / _numChunks\<close> rounded down and then adds one
  chunk for the remainder, but that last chunk is again cut to \<open>_chunkSize\<close> indices.
  With 4 threads and \<open>N = 100\<close> there are 33 chunks of 3 indices: index 99 is visited by
  no invocation and the counts sum to 99.
\<close>

theorem call_100_on_4_threads_misses_index_99:
  "call (newParallel 4) 0 quietTarget 100 False = Inr (map (\<lambda>i. (3 * i, 3)) [0..<33])
   \<and> visitCount (map (\<lambda>i. (3 * i, 3)) [0..<33]) 99 = 0
   \<and> sum_list (map snd (map (\<lambda>i. (3 * i, 3::nat)) [0..<33])) = 99"
proof -
  have a: "call (newParallel 4) 0 quietTarget 100 False = Inr (map (\<lambda>i. (3 * i, 3)) [0..<33])"
    apply (simp add: call_def newParallel_def to_size_t_def size_t_max_def doWork_quiet Let_def)
    apply (simp add: chunkOf_def size_t_max_def size_t_sub_def)
    done
  have b: "visitCount (map (\<lambda>i. (3 * i, 3)) [0..<33]) 99 = 0"
    by (auto simp add: visitCount_def visits_def filter_empty_conv)
  have c: "sum_list (map snd (map (\<lambda>i. (3 * i, 3::nat)) [0..<33])) = 99"
    by (simp add: comp_def sum_list_triv)
  from a b c show ?thesis by blast
qed

text \<open>
  C6. The claim: \<open>call(body, 0)\<close> returns immediately without ever invoking the body,
  for every thread count and both values of \<open>chunksOfOne\<close>.
  The code has no test for \<open>maxIndex = 0\<close>. Without \<open>useChunksOfSizeOne\<close> the chunk size
  is 0 and all \<open>8 * threadCount\<close> chunks are dispensed, each invoking the body with
  \<open>(0, 0)\<close>; with \<open>useChunksOfSizeOne\<close> the number of chunks is 0 and the division
  \<open>_maxIndex / _numChunks\<close> divides by zero.
\<close>

theorem call_0_invokes_target_or_divides_by_zero:
  "call (newParallel 1) 0 quietTarget 0 False = Inr (map (\<lambda>i. (0, 0)) [0..<8])
   \<and> call (newParallel 1) 0 quietTarget 0 True = Inl DivisionByZero"
proof -
  have a: "call (newParallel 1) 0 quietTarget 0 False = Inr (map (\<lambda>i. (0, 0)) [0..<8])"
    apply (simp add: call_def newParallel_def to_size_t_def size_t_max_def doWork_quiet Let_def)
    apply (simp add: chunkOf_def size_t_max_def size_t_sub_def)
    done
  have b: "call (newParallel 1) 0 quietTarget 0 True = Inl DivisionByZero"
    by (simp add: call_def newParallel_def)
  from a b show ?thesis by blast
qed


section \<open>FluxRecorder: allocation, detection, folding\<close>

subsection \<open>finalizeConfiguration allocates the channels\<close>

lemma levelsSet_length [simp]: "length (levelsSet i n arrs) = length arrs"
  by (simp add: levelsSet_def)

lemma levelsSet_nth:
  "k < length arrs \<Longrightarrow> levelsSet i n arrs ! k =
     (if PrimaryScatteredLevel + i \<le> int k then replicate n 0 else arrs ! k)"
  by (simp add: levelsSet_def)

lemma levelsSet_top:
  "int (length arrs) \<le> PrimaryScatteredLevel + i \<Longrightarrow> levelsSet i n arrs = arrs"
  by (rule nth_equalityI) (simp_all add: levelsSet_nth)

lemma levelsSet_step:
  "0 \<le> PrimaryScatteredLevel + i \<Longrightarrow>
   levelsSet (i + 1) n (arrs[nat (PrimaryScatteredLevel + i) := replicate n 0]) = levelsSet i n arrs"
  by (rule nth_equalityI) (auto simp add: levelsSet_nth nth_list_update)

lemma resizeBoth_ok:
  "inRange ch (fst p) \<Longrightarrow> inRange ch (snd p) \<Longrightarrow>
   resizeBoth p ch a b = Inr ((fst p)[nat ch := replicate a 0], (snd p)[nat ch := replicate b 0])"
  by (simp add: resizeBoth_def resizeAt_def)

lemma resizeLevels_ok:
  "0 \<le> i \<Longrightarrow> i \<le> S \<Longrightarrow> int (length (fst p)) = PrimaryScatteredLevel + S \<Longrightarrow>
   int (length (snd p)) = PrimaryScatteredLevel + S \<Longrightarrow>
   resizeLevels i S a b p = Inr (levelsSet i a (fst p), levelsSet i b (snd p))"
proof (induction i S a b p rule: resizeLevels.induct)
  case (1 i S a b p)
  show ?case
  proof (cases "i = S")
    case True
    with "1.prems" show ?thesis
      by (subst resizeLevels.simps) (simp add: levelsSet_top)
  next
    case False
    let ?p' = "((fst p)[nat (PrimaryScatteredLevel + i) := replicate a 0],
                (snd p)[nat (PrimaryScatteredLevel + i) := replicate b 0])"
    have rng: "inRange (PrimaryScatteredLevel + i) (fst p)" "inRange (PrimaryScatteredLevel + i) (snd p)"
      using "1.prems" False by (simp_all add: inRange_def PrimaryScatteredLevel_def)
    have rb: "resizeBoth p (PrimaryScatteredLevel + i) a b = Inr ?p'"
      using rng by (rule resizeBoth_ok)
    have ih: "resizeLevels (i + 1) S a b ?p' = Inr (levelsSet (i + 1) a (fst ?p'), levelsSet (i + 1) b (snd ?p'))"
      using "1.IH"[OF False rb] "1.prems" False by simp
    have nn: "0 \<le> PrimaryScatteredLevel + i"
      using "1.prems" by (simp add: PrimaryScatteredLevel_def)
    show ?thesis
      using False rb ih by (subst resizeLevels.simps) (simp add: levelsSet_step [OF nn])
  qed
qed

lemma to_size_t_id: "0 \<le> i \<Longrightarrow> i < 2 ^ 64 \<Longrightarrow> to_size_t i = nat i"
  by (simp add: to_size_t_def size_t_max_def)

lemma fin_core:
  assumes S: "0 \<le> numScatteringLevels s" "numScatteringLevels s < 2 ^ 31 - 9"
  defines "n \<equiv> nat (PrimaryScatteredLevel + numScatteringLevels s)"
  shows "bindE
           (if (\<not> recordComponents s \<or> \<not> hasMedium s) then resizeBoth (replicate n [], replicate n []) Total a b
            else
              bindE (resizeBoth (replicate n [], replicate n []) Transparent a b) (\<lambda>p.
              bindE (resizeBoth p PrimaryDirect a b) (\<lambda>p.
              bindE (resizeBoth p PrimaryScattered a b) (\<lambda>p.
              bindE (resizeLevels 0 (numScatteringLevels s) a b p) (\<lambda>p.
              if hasMediumEmission s
              then bindE (resizeBoth p SecondaryDirect a b) (\<lambda>p.
                   resizeBoth p SecondaryScattered a b)
              else Inr p)))))
           (\<lambda>p.
           (if recordPolarization s
            then bindE (resizeBoth p TotalQ a b) (\<lambda>p.
                 bindE (resizeBoth p TotalU a b) (\<lambda>p.
                 resizeBoth p TotalV a b))
            else Inr p)) = Inr (expectedFamily s a, expectedFamily s b)"
proof -
  have n9: "9 \<le> n" "int n = 9 + numScatteringLevels s"
    using S by (simp_all add: n_def PrimaryScatteredLevel_def)
  have len: "length (expectedFamily s c) = n" for c
    by (simp add: expectedFamily_def n_def)
  have nth: "k < n \<Longrightarrow> expectedFamily s c ! k = (if allocatedChannel s (int k) then replicate c 0 else [])" for k c
    by (simp add: expectedFamily_def n_def)
  show ?thesis
    using n9
    apply (simp add: resizeBoth_ok resizeLevels_ok inRange_def channel_defs)
    apply (intro conjI impI)
    apply (rule nth_equalityI; simp add: len nth levelsSet_nth nth_list_update allocatedChannel_def channel_defs; fail)+
    done
qed

lemma expectedFamily_length:
  "length (expectedFamily s len) = nat (PrimaryScatteredLevel + numScatteringLevels s)"
  by (simp add: expectedFamily_def)

lemma expectedFamily_nth:
  "k < nat (PrimaryScatteredLevel + numScatteringLevels s) \<Longrightarrow>
   expectedFamily s len ! k = (if allocatedChannel s (int k) then replicate len 0 else [])"
  by (simp add: expectedFamily_def)

lemma allocatedChannel_range:
  "0 \<le> numScatteringLevels s \<Longrightarrow> allocatedChannel s ch \<Longrightarrow>
   0 \<le> ch \<and> ch < PrimaryScatteredLevel + numScatteringLevels s"
  by (auto simp add: allocatedChannel_def Let_def channel_defs)

lemma nonEmptyChannels_expectedFamily:
  assumes "0 \<le> numScatteringLevels s" and "0 < len"
  shows "nonEmptyChannels (expectedFamily s len) = {ch. allocatedChannel s ch}"
proof (rule set_eqI)
  fix ch
  show "ch \<in> nonEmptyChannels (expectedFamily s len) \<longleftrightarrow> ch \<in> {ch. allocatedChannel s ch}"
  proof (cases "0 \<le> ch \<and> ch < PrimaryScatteredLevel + numScatteringLevels s")
    case True
    then have "nat ch < nat (PrimaryScatteredLevel + numScatteringLevels s)" "int (nat ch) = ch"
      by simp_all
    then show ?thesis
      using True assms(2)
      by (simp add: nonEmptyChannels_def inRange_def expectedFamily_length expectedFamily_nth)
  next
    case False
    then have "\<not> allocatedChannel s ch"
      using allocatedChannel_range [OF assms(1)] by blast
    moreover have "\<not> inRange ch (expectedFamily s len)"
      using False by (auto simp add: inRange_def expectedFamily_length)
    ultimately show ?thesis by (simp add: nonEmptyChannels_def)
  qed
qed

lemma bindE_assoc: "bindE (bindE m f) g = bindE m (\<lambda>v. bindE (f v) g)"
  by (cases m) simp_all

lemma bindE_known: "bindE m f = Inr v \<Longrightarrow> bindE m (\<lambda>p. bindE (f p) k) = k v"
  by (cases m) simp_all

lemma resizeVector_moments:
  "bindE (resizeVector numStatMoments a) f
     = f (take numStatMoments a @ replicate (numStatMoments - length a) [])"
  by (simp add: resizeVector_def numStatMoments_def)

lemma map_const_resized:
  "map (\<lambda>a. c) (take n a) @ replicate (n - length a) c = replicate n c"
  by (simp add: map_replicate_const replicate_add [symmetric] min_def)

lemma int32_id: "- (2 ^ 31) \<le> i \<Longrightarrow> i < 2 ^ 31 \<Longrightarrow> int32 i = i"
  by (simp add: int32_def)

text \<open>A frame of \<open>65536 * 65536\<close> pixels: the \<open>int\<close> product wraps to 0.\<close>

lemma numPixelsInFrame_wraps: "to_size_t (int32 (65536 * 65536)) = 0"
  by (simp add: int32_def to_size_t_def)

text \<open>Within the range of \<open>int\<close> the lengths are the products of the data model.\<close>

lemma lenIFUof_in_range:
  assumes "includeSurfaceBrightness s" and "0 \<le> numPixelsX s * numPixelsY s"
    and "numPixelsX s * numPixelsY s < 2 ^ 31"
    and "0 \<le> lambdagrid_numWavelengths s" and "lambdagrid_numWavelengths s < 2 ^ 31"
  shows "lenIFUof s = nat (numPixelsX s * numPixelsY s * lambdagrid_numWavelengths s)"
proof -
  let ?p = "numPixelsX s * numPixelsY s" and ?w = "lambdagrid_numWavelengths s"
  have p: "to_size_t (int32 ?p) = nat ?p"
    using assms(2,3) by (simp add: int32_id to_size_t_id)
  have w: "to_size_t ?w = nat ?w"
    using assms(4,5) by (simp add: to_size_t_id)
  have "?p * ?w < 2 ^ 31 * 2 ^ 31"
    using assms(2-5) by (intro mult_strict_mono') simp_all
  then have "?p * ?w < 2 ^ 64" by simp
  then have "nat ?p * nat ?w < 2 ^ 64"
    using assms(2,4) by (simp add: nat_mult_distrib [symmetric] nat_less_iff)
  then show ?thesis
    using assms(1,2,4) by (simp add: lenIFUof_def p w size_t_max_def nat_mult_distrib)
qed

text \<open>Beyond it the sum \<open>PrimaryScatteredLevel + _numScatteringLevels\<close> wraps to a negative
  \<open>int\<close>, which no vector can be resized to.\<close>

lemma int_mod_above: "b \<le> x \<Longrightarrow> x < 2 * b \<Longrightarrow> (x::int) mod b = x - b"
proof -
  assume a: "b \<le> x" "x < 2 * b"
  have "(x - b) mod b = x - b" using a by (intro mod_pos_pos_trivial) simp_all
  moreover have "(x - b) mod b = x mod b" by simp
  ultimately show ?thesis by simp
qed

lemma int_mod_below: "- b \<le> x \<Longrightarrow> x < 0 \<Longrightarrow> (x::int) mod b = x + b"
proof -
  assume a: "- b \<le> x" "x < 0"
  have "(x + b) mod b = x + b" using a by (intro mod_pos_pos_trivial) simp_all
  moreover have "(x + b) mod b = x mod b" by simp
  ultimately show ?thesis by simp
qed

lemma finalizeConfiguration_overflow:
  assumes "2 ^ 31 - 9 \<le> numScatteringLevels s" and "numScatteringLevels s < 2 ^ 31"
  shows "finalizeConfiguration s = Inl (FatalError ''std::length_error'')"
proof -
  let ?i = "PrimaryScatteredLevel + numScatteringLevels s"
  have "(?i + 2 ^ 31) mod 2 ^ 32 = ?i + 2 ^ 31 - 2 ^ 32"
    using assms by (intro int_mod_above) (simp_all add: PrimaryScatteredLevel_def)
  then have i: "int32 ?i = ?i - 2 ^ 32" by (simp add: int32_def)
  have "(?i - 2 ^ 32) mod 2 ^ 64 = ?i - 2 ^ 32 + 2 ^ 64"
    using assms by (intro int_mod_below) (simp_all add: PrimaryScatteredLevel_def)
  then have "to_size_t (int32 ?i) = nat (?i - 2 ^ 32 + 2 ^ 64)"
    by (simp add: i to_size_t_def size_t_max_def)
  then have "2 ^ 63 \<le> to_size_t (int32 ?i)"
    using assms by (simp add: PrimaryScatteredLevel_def le_nat_iff)
  then show ?thesis
    by (simp add: finalizeConfiguration_def Let_def resizeVector_def)
qed

lemma finalizeConfiguration_result:
  assumes "sed s = []" and "ifu s = []"
    and "0 \<le> numScatteringLevels s" and "numScatteringLevels s < 2 ^ 31 - 9"
  shows "finalizeConfiguration s =
     Inr (s\<lparr>numPixelsInFrame := to_size_t (int32 (numPixelsX s * numPixelsY s)),
            recordTotalOnly := (\<not> recordComponents s \<or> \<not> hasMedium s),
            sed := expectedFamily s (lenSEDof s), ifu := expectedFamily s (lenIFUof s),
            wsed := (if recordStatistics s
                     then replicate numStatMoments (replicate (lenSEDof s) 0) else wsed s),
            wifu := (if recordStatistics s
                     then replicate numStatMoments (replicate (lenIFUof s) 0) else wifu s)\<rparr>)"
proof -
  let ?n = "nat (PrimaryScatteredLevel + numScatteringLevels s)"
  have "int32 (PrimaryScatteredLevel + numScatteringLevels s)
          = PrimaryScatteredLevel + numScatteringLevels s"
    using assms(3,4) by (intro int32_id) (simp_all add: PrimaryScatteredLevel_def)
  moreover have "to_size_t (PrimaryScatteredLevel + numScatteringLevels s) = ?n"
    using assms(3,4) by (intro to_size_t_id) (simp_all add: PrimaryScatteredLevel_def)
  ultimately have n: "to_size_t (int32 (PrimaryScatteredLevel + numScatteringLevels s)) = ?n"
    by simp
  have small: "\<not> 2 ^ 63 \<le> ?n"
    using assms(3,4) by (simp add: PrimaryScatteredLevel_def nat_le_iff)
  have rv: "resizeVector ?n [] = Inr (replicate ?n [])"
    using small by (simp add: resizeVector_def)
  show ?thesis
    unfolding finalizeConfiguration_def Let_def n assms(1,2) rv bindE_Inr
    apply (subst bindE_known [OF fin_core [OF assms(3,4)]])
    apply (simp add: resizeVector_moments map_const_resized lenSEDof_def lenIFUof_def)
    done
qed




subsection \<open>Adding to the detector arrays\<close>

lemma sameShape_refl [simp]: "sameShape a a"
  by (simp add: sameShape_def)

lemma sameShape_trans: "sameShape a b \<Longrightarrow> sameShape b c \<Longrightarrow> sameShape a c"
  by (simp add: sameShape_def)

lemma sameShape_length: "sameShape a b \<Longrightarrow> length a = length b"
  by (metis length_map sameShape_def)

lemma sameShape_nth: "sameShape a b \<Longrightarrow> c < length a \<Longrightarrow> length (a ! c) = length (b ! c)"
  by (metis length_map nth_map sameShape_def)

lemma sameShape_inRange: "sameShape a b \<Longrightarrow> inRange ch a = inRange ch b"
  by (simp add: inRange_def sameShape_length)

lemma sameShape_inRange2:
  "sameShape a b \<Longrightarrow> inRange ch a \<Longrightarrow> inRange i (a ! nat ch) = inRange i (b ! nat ch)"
  using sameShape_nth[of a b "nat ch"] by (auto simp add: inRange_def nat_less_iff)

lemma added_refl: "added a a (\<lambda>c j. 0)"
  by (simp add: added_def)

lemma added_trans:
  "added a b f \<Longrightarrow> added b c g \<Longrightarrow> added a c (\<lambda>x y. f x y + g x y)"
  unfolding added_def
  by (auto intro: sameShape_trans simp add: sameShape_length sameShape_nth)

lemma added_cong: "added a b f \<Longrightarrow> (\<And>c j. f c j = g c j) \<Longrightarrow> added a b g"
  by (simp add: added_def)

lemma addAt_added:
  assumes "addAt arrs ch i v = Inr arrs'"
  shows "added arrs arrs' (\<lambda>c j. if c = ch \<and> j = i then v else 0)"
proof -
  from assms have r: "inRange ch arrs" "inRange i (arrs ! nat ch)"
    and e: "arrs' = arrs[nat ch := (arrs ! nat ch)[nat i := arrs ! nat ch ! nat i + v]]"
    by (auto simp add: addAt_def split: if_splits)
  have sh: "sameShape arrs arrs'"
    using r unfolding sameShape_def e
    by (intro nth_equalityI) (auto simp add: nth_list_update inRange_def nat_less_iff)
  show ?thesis
    unfolding added_def
  proof (intro conjI allI impI sh)
    fix c j assume c: "c < length arrs" and j: "j < length (arrs ! c)"
    show "arrs' ! c ! j = arrs ! c ! j + (if int c = ch \<and> int j = i then v else 0)"
      using r c j unfolding e by (auto simp add: nth_list_update inRange_def)
  qed
qed

lemma addAt_inRange:
  "addAt arrs ch i v = Inr arrs' \<Longrightarrow> inRange ch arrs \<and> inRange i (arrs ! nat ch)"
  by (auto simp add: addAt_def split: if_splits)

lemma addAt_error: "addAt arrs ch i v = Inl e \<Longrightarrow> e = IndexOutOfRange"
  by (auto simp add: addAt_def split: if_splits)

lemma addAt2_added:
  assumes "bindE (addAt arrs c1 i v1) (\<lambda>a. addAt a c2 i v2) = Inr r"
  shows "added arrs r (\<lambda>c j. (if c = c1 \<and> j = i then v1 else 0) + (if c = c2 \<and> j = i then v2 else 0))"
proof -
  from assms obtain a where 1: "addAt arrs c1 i v1 = Inr a" and 2: "addAt a c2 i v2 = Inr r"
    unfolding bindE_eq_Inr by blast
  show ?thesis
    by (rule added_trans [OF addAt_added [OF 1] addAt_added [OF 2]])
qed

lemma addAt3_added:
  assumes "bindE (addAt arrs c1 i v1) (\<lambda>a. bindE (addAt a c2 i v2) (\<lambda>a. addAt a c3 i v3)) = Inr r"
  shows "added arrs r (\<lambda>c j. (if c = c1 \<and> j = i then v1 else 0)
            + ((if c = c2 \<and> j = i then v2 else 0) + (if c = c3 \<and> j = i then v3 else 0)))"
proof -
  from assms obtain a where 1: "addAt arrs c1 i v1 = Inr a"
    and 2: "bindE (addAt a c2 i v2) (\<lambda>a. addAt a c3 i v3) = Inr r"
    unfolding bindE_eq_Inr by blast
  show ?thesis
    by (rule added_trans [OF addAt_added [OF 1] addAt2_added [OF 2]])
qed

lemma recordFlux_added:
  assumes "recordFlux s pp tau arrs i = Inr arrs'"
  shows "added arrs arrs' (fluxDelta s pp tau i)"
proof -
  let ?L = "luminosity pp"
  let ?Lext = "luminosity pp * exp (- tau)"
  let ?n = "numScatt pp"
  let ?first = "(if recordTotalOnly s then addAt arrs Total i ?L
            else if hasPrimaryOrigin pp then
              (if ?n = 0
               then bindE (addAt arrs Transparent i ?L) (\<lambda>a. addAt a PrimaryDirect i ?Lext)
               else bindE (addAt arrs PrimaryScattered i ?Lext) (\<lambda>a.
                      if ?n \<le> numScatteringLevels s
                      then addAt a (PrimaryScatteredLevel + ?n - 1) i ?Lext
                      else Inr a))
            else
              (if ?n = 0 then addAt arrs SecondaryDirect i ?Lext
               else addAt arrs SecondaryScattered i ?Lext))"
  let ?second = "\<lambda>a. (if recordPolarization s
             then bindE (addAt a TotalQ i (?Lext * stokesQ pp)) (\<lambda>a.
                  bindE (addAt a TotalU i (?Lext * stokesU pp)) (\<lambda>a.
                  addAt a TotalV i (?Lext * stokesV pp)))
             else Inr a)"
  have "bindE ?first ?second = Inr arrs'"
    using assms by (simp add: recordFlux_def Let_def)
  then obtain a where first: "?first = Inr a" and second: "?second a = Inr arrs'"
    unfolding bindE_eq_Inr by blast
  define d1 where "d1 = (\<lambda>c j. if j \<noteq> i then 0 else
          (if recordTotalOnly s then (if c = Total then ?L else 0)
           else if hasPrimaryOrigin pp then
             (if ?n = 0 then (if c = Transparent then ?L else 0) + (if c = PrimaryDirect then ?Lext else 0)
              else (if c = PrimaryScattered then ?Lext else 0)
                 + (if ?n \<le> numScatteringLevels s \<and> c = PrimaryScatteredLevel + ?n - 1 then ?Lext else 0))
           else (if ?n = 0 then (if c = SecondaryDirect then ?Lext else 0)
                 else (if c = SecondaryScattered then ?Lext else 0))))"
  define d2 where "d2 = (\<lambda>c j. if j \<noteq> i then 0 else (if recordPolarization s
             then (if c = TotalQ then ?Lext * stokesQ pp else 0)
                + (if c = TotalU then ?Lext * stokesU pp else 0)
                + (if c = TotalV then ?Lext * stokesV pp else 0)
             else 0))"
  have a1: "added arrs a d1"
  proof (cases "recordTotalOnly s")
    case True
    then have "addAt arrs Total i ?L = Inr a" using first by simp
    from addAt_added [OF this] show ?thesis
      by (rule added_cong) (simp add: d1_def True)
  next
    case rto: False
    show ?thesis
    proof (cases "hasPrimaryOrigin pp")
      case prim: True
      show ?thesis
      proof (cases "?n = 0")
        case True
        then have "bindE (addAt arrs Transparent i ?L) (\<lambda>a. addAt a PrimaryDirect i ?Lext) = Inr a"
          using first rto prim by simp
        from addAt2_added [OF this] show ?thesis
          by (rule added_cong) (simp add: d1_def rto prim True)
      next
        case n0: False
        show ?thesis
        proof (cases "?n \<le> numScatteringLevels s")
          case True
          then have "bindE (addAt arrs PrimaryScattered i ?Lext)
                       (\<lambda>a. addAt a (PrimaryScatteredLevel + ?n - 1) i ?Lext) = Inr a"
            using first rto prim n0 by simp
          from addAt2_added [OF this] show ?thesis
            by (rule added_cong) (simp add: d1_def rto prim n0 True)
        next
          case False
          then have "addAt arrs PrimaryScattered i ?Lext = Inr a"
            using first rto prim n0 by (simp add: bindE_eq_Inr)
          from addAt_added [OF this] show ?thesis
            by (rule added_cong) (simp add: d1_def rto prim n0 False)
        qed
      qed
    next
      case sec: False
      show ?thesis
      proof (cases "?n = 0")
        case True
        then have "addAt arrs SecondaryDirect i ?Lext = Inr a"
          using first rto sec by simp
        from addAt_added [OF this] show ?thesis
          by (rule added_cong) (simp add: d1_def rto sec True)
      next
        case False
        then have "addAt arrs SecondaryScattered i ?Lext = Inr a"
          using first rto sec by simp
        from addAt_added [OF this] show ?thesis
          by (rule added_cong) (simp add: d1_def rto sec False)
      qed
    qed
  qed
  have a2: "added a arrs' d2"
  proof (cases "recordPolarization s")
    case True
    then have "bindE (addAt a TotalQ i (?Lext * stokesQ pp)) (\<lambda>a.
                  bindE (addAt a TotalU i (?Lext * stokesU pp)) (\<lambda>a.
                  addAt a TotalV i (?Lext * stokesV pp))) = Inr arrs'"
      using second by simp
    from addAt3_added [OF this] show ?thesis
      by (rule added_cong) (simp add: d2_def True)
  next
    case False
    then have "arrs' = a" using second by simp
    then show ?thesis
      using added_refl [of a] by (auto elim!: added_cong simp add: d2_def False)
  qed
  show ?thesis
    by (rule added_cong [OF added_trans [OF a1 a2]])
       (simp add: fluxDelta_def d1_def d2_def Let_def)
qed

lemma recordContributions_sed:
  "recordContributions s cl = Inr s2 \<Longrightarrow> sed s2 = sed s \<and> ifu s2 = ifu s
     \<and> contributionLists s2 = contributionLists s
     \<and> includeFluxDensity s2 = includeFluxDensity s
     \<and> includeSurfaceBrightness s2 = includeSurfaceBrightness s
     \<and> recordStatistics s2 = recordStatistics s
     \<and> numPixelsInFrame s2 = numPixelsInFrame s"
  by (auto simp add: recordContributions_def Let_def bindE_eq_Inr)

lemma detect_unfold:
  "detect t s pp l tau =
     bindE (if includeFluxDensity s then recordFlux s pp tau (sed s) (lambdagrid_ell s (lambda pp))
            else Inr (sed s)) (\<lambda>sed'.
     bindE (if includeSurfaceBrightness s \<and> l \<ge> 0
            then recordFlux s pp tau (ifu s)
                   (int (lellOf (numPixelsInFrame s) (lambdagrid_ell s (lambda pp)) l))
            else Inr (ifu s)) (\<lambda>ifu'.
     statisticsBlock t (s\<lparr>sed := sed', ifu := ifu'\<rparr>) pp l tau))"
  by (simp add: detect_def statisticsBlock_def Let_def)

lemma statisticsBlock_frame:
  assumes "statisticsBlock t s1 pp l tau = Inr s'"
  shows "sed s' = sed s1 \<and> ifu s' = ifu s1
     \<and> includeFluxDensity s' = includeFluxDensity s1
     \<and> includeSurfaceBrightness s' = includeSurfaceBrightness s1
     \<and> recordStatistics s' = recordStatistics s1
     \<and> numPixelsInFrame s' = numPixelsInFrame s1"
proof (cases "recordStatistics s1")
  case False
  with assms show ?thesis by (simp add: statisticsBlock_def)
next
  case True
  let ?cl = "localList (contributionLists s1) t"
  from assms True obtain r where
    r: "(if \<not> hasHistoryIndex ?cl (historyIndex pp)
         then bindE (recordContributions s1 ?cl) (\<lambda>s2. Inr (s2, reset (historyIndex pp)))
         else Inr (s1, ?cl)) = Inr r"
    and s': "s' = (fst r)\<lparr>contributionLists :=
                    setLocalList (contributionLists (fst r)) t
                      (addContribution (snd r) (lambdagrid_ell s1 (lambda pp)) l
                         (luminosity pp * exp (- tau)))\<rparr>"
    by (auto simp add: statisticsBlock_def Let_def bindE_eq_Inr)
  have "fst r = s1 \<or> recordContributions s1 ?cl = Inr (fst r)"
    using r by (auto simp add: bindE_eq_Inr split: if_splits)
  then show ?thesis
    using recordContributions_sed [of s1 ?cl "fst r"] by (auto simp add: s')
qed

lemma detect_parts:
  assumes "detect t s pp l tau = Inr s'"
  shows "(if includeFluxDensity s then recordFlux s pp tau (sed s) (lambdagrid_ell s (lambda pp))
          else Inr (sed s)) = Inr (sed s')"
    and "(if includeSurfaceBrightness s \<and> l \<ge> 0
          then recordFlux s pp tau (ifu s)
                 (int (lellOf (numPixelsInFrame s) (lambdagrid_ell s (lambda pp)) l))
          else Inr (ifu s)) = Inr (ifu s')"
    and "statisticsBlock t (s\<lparr>sed := sed s', ifu := ifu s'\<rparr>) pp l tau = Inr s'"
proof -
  from assms obtain sed' ifu' where
    a: "(if includeFluxDensity s then recordFlux s pp tau (sed s) (lambdagrid_ell s (lambda pp))
          else Inr (sed s)) = Inr sed'"
    and b: "(if includeSurfaceBrightness s \<and> l \<ge> 0
          then recordFlux s pp tau (ifu s)
                 (int (lellOf (numPixelsInFrame s) (lambdagrid_ell s (lambda pp)) l))
          else Inr (ifu s)) = Inr ifu'"
    and c: "statisticsBlock t (s\<lparr>sed := sed', ifu := ifu'\<rparr>) pp l tau = Inr s'"
    unfolding detect_unfold bindE_eq_Inr by blast
  from statisticsBlock_frame [OF c] have e: "sed s' = sed'" "ifu s' = ifu'" by simp_all
  show "(if includeFluxDensity s then recordFlux s pp tau (sed s) (lambdagrid_ell s (lambda pp))
          else Inr (sed s)) = Inr (sed s')" using a e by simp
  show "(if includeSurfaceBrightness s \<and> l \<ge> 0
          then recordFlux s pp tau (ifu s)
                 (int (lellOf (numPixelsInFrame s) (lambdagrid_ell s (lambda pp)) l))
          else Inr (ifu s)) = Inr (ifu s')" using b e by simp
  show "statisticsBlock t (s\<lparr>sed := sed s', ifu := ifu s'\<rparr>) pp l tau = Inr s'"
    using c e by simp
qed

subsection \<open>detect on a packet of primary origin\<close>

lemma addAt2_inRange:
  assumes "bindE (addAt a c1 i v1) (\<lambda>a. addAt a c2 i v2) = Inr r"
  shows "inRange c1 a \<and> inRange i (a ! nat c1) \<and> inRange c2 a \<and> inRange i (a ! nat c2)"
proof -
  from assms obtain b where 1: "addAt a c1 i v1 = Inr b" and 2: "addAt b c2 i v2 = Inr r"
    unfolding bindE_eq_Inr by blast
  have sh: "sameShape a b" using addAt_added [OF 1] by (simp add: added_def)
  from addAt_inRange [OF 1] addAt_inRange [OF 2] show ?thesis
    using sameShape_inRange [OF sh] sameShape_inRange2 [OF sh] by auto
qed

lemma recordFlux_cells:
  assumes rf: "recordFlux s pp tau arrs i = Inr arrs'" and rto: "\<not> recordTotalOnly s"
    and prim: "hasPrimaryOrigin pp"
  shows "(if numScatt pp = 0
          then inRange Transparent arrs \<and> inRange i (arrs ! nat Transparent)
             \<and> inRange PrimaryDirect arrs \<and> inRange i (arrs ! nat PrimaryDirect)
          else inRange PrimaryScattered arrs \<and> inRange i (arrs ! nat PrimaryScattered)
             \<and> (numScatt pp \<le> numScatteringLevels s \<longrightarrow>
                   inRange (PrimaryScatteredLevel + numScatt pp - 1) arrs
                 \<and> inRange i (arrs ! nat (PrimaryScatteredLevel + numScatt pp - 1))))"
proof -
  let ?Lext = "luminosity pp * exp (- tau)"
  from rf rto prim obtain a where
    first: "(if numScatt pp = 0
               then bindE (addAt arrs Transparent i (luminosity pp)) (\<lambda>a. addAt a PrimaryDirect i ?Lext)
               else bindE (addAt arrs PrimaryScattered i ?Lext) (\<lambda>a.
                      if numScatt pp \<le> numScatteringLevels s
                      then addAt a (PrimaryScatteredLevel + numScatt pp - 1) i ?Lext
                      else Inr a)) = Inr a"
    by (auto simp add: recordFlux_def Let_def bindE_eq_Inr)
  show ?thesis
  proof (cases "numScatt pp = 0")
    case True
    with first addAt2_inRange show ?thesis by simp
  next
    case n0: False
    show ?thesis
    proof (cases "numScatt pp \<le> numScatteringLevels s")
      case True
      with first n0 have "bindE (addAt arrs PrimaryScattered i ?Lext)
          (\<lambda>a. addAt a (PrimaryScatteredLevel + numScatt pp - 1) i ?Lext) = Inr a" by simp
      from addAt2_inRange [OF this] show ?thesis using n0 by simp
    next
      case False
      with first n0 have "addAt arrs PrimaryScattered i ?Lext = Inr a"
        by (simp add: bindE_eq_Inr)
      from addAt_inRange [OF this] show ?thesis using n0 False by simp
    qed
  qed
qed


lemma detect_scatteredTwice:
  "detect 0 componentsRecorder scatteredTwice (- 1) 0 = Inr componentsRecorderAfter"
  by (simp add: detect_def recordFlux_def addAt_def inRange_def Let_def channel_defs
        componentsRecorder_def componentsRecorderAfter_def scatteredTwice_def emptyRecorder_def)


subsection \<open>flush\<close>

lemma recordContributions_empty:
  "contributions cl = [] \<Longrightarrow> recordContributions s cl = Inr s"
  by (simp add: recordContributions_def sortContributions_def)

lemma flushLists_result:
  "flushLists s ls = Inr r \<Longrightarrow>
     snd r = map (\<lambda>tc. (fst tc, reset 0)) ls \<and> contributionLists (fst r) = contributionLists s"
proof (induction ls arbitrary: s r)
  case Nil
  then show ?case by auto
next
  case (Cons tc rest)
  from Cons.prems obtain s1 r1 where
    1: "recordContributions s (snd tc) = Inr s1" and 2: "flushLists s1 rest = Inr r1"
    and 3: "r = (fst r1, (fst tc, reset 0) # snd r1)"
    by (auto simp add: bindE_eq_Inr)
  from Cons.IH [OF 2] recordContributions_sed [OF 1] 3 show ?case by simp
qed

lemma flushLists_all_empty:
  "\<forall>tc \<in> set ls. contributions (snd tc) = [] \<Longrightarrow>
     flushLists s ls = Inr (s, map (\<lambda>tc. (fst tc, reset 0)) ls)"
  by (induction ls) (simp_all add: recordContributions_empty)

text \<open>
  C9. \<open>flush\<close> is idempotent: when a first \<open>flush\<close> completes and leaves the recorder
  \<open>s1\<close>, a second \<open>flush\<close> completes and leaves \<open>s1\<close> again; so every SED, IFU and
  moment array is unchanged (and so is every contribution list).
\<close>

theorem flush_twice_changes_nothing:
  assumes "flush s = Inr s1"
  shows "flush s1 = Inr s1"
proof -
  from assms obtain r where r: "flushLists s (contributionLists s) = Inr r"
    and s1: "s1 = (fst r)\<lparr>contributionLists := snd r\<rparr>"
    by (auto simp add: flush_def bindE_eq_Inr)
  have ls: "contributionLists s1 = map (\<lambda>tc. (fst tc, reset 0)) (contributionLists s)"
    using flushLists_result [OF r] s1 by simp
  have "flushLists s1 (contributionLists s1)
          = Inr (s1, map (\<lambda>tc. (fst tc, reset 0)) (contributionLists s1))"
    by (rule flushLists_all_empty) (simp add: ls reset_def)
  moreover have "map (\<lambda>tc. (fst tc, reset 0)) (contributionLists s1) = contributionLists s1"
    by (simp add: ls comp_def)
  ultimately show ?thesis
    by (simp add: flush_def)
qed

lemma addMoments_numStatMoments:
  "addMoments numStatMoments k wn wt arrs i =
     bindE (addAt arrs k i (wn * wt)) (\<lambda>a1.
     bindE (addAt a1 (k + 1) i (wn * wt * wt)) (\<lambda>a2.
     bindE (addAt a2 (k + 1 + 1) i (wn * wt * wt * wt)) (\<lambda>a3.
     addAt a3 (k + 1 + 1 + 1) i (wn * wt * wt * wt * wt))))"
proof -
  have n: "numStatMoments = Suc (Suc (Suc (Suc 0)))" by (simp add: numStatMoments_def)
  show ?thesis
    unfolding n addMoments.simps by (simp add: bindE_def split: sum.splits)
qed

lemma flush_ifuRecorderPending: "flush ifuRecorderPending = Inr ifuRecorderFolded"
  by (simp add: flush_def recordContributions_def sortContributions_def Let_def
        addMoments_numStatMoments addAt_def inRange_def lellOf_def to_size_t_def
        size_t_max_def reset_def
        ifuRecorderPending_def ifuRecorderFolded_def ifuRecorder_def emptyRecorder_def)

text \<open>C9, witness: a recorder with one pending contribution.\<close>

theorem flush_twice_changes_nothing_witness:
  "flush ifuRecorderPending = Inr ifuRecorderFolded
   \<and> flush ifuRecorderFolded = Inr ifuRecorderFolded"
  using flush_twice_changes_nothing [OF flush_ifuRecorderPending] flush_ifuRecorderPending
  by simp

subsection \<open>Contributions of packets that miss the frame\<close>

lemma sameShape_small:
  assumes sh: "sameShape a b" and sm: "smallArrays a"
  shows "smallArrays b"
  unfolding smallArrays_def
proof
  fix x assume "x \<in> set b"
  then obtain i where i: "i < length b" and x: "b ! i = x"
    by (auto simp add: in_set_conv_nth)
  have ia: "i < length a" using i sameShape_length [OF sh] by simp
  have "length (a ! i) = length (b ! i)" by (rule sameShape_nth [OF sh ia])
  moreover have "a ! i \<in> set a" using ia by simp
  ultimately show "length x < 2 ^ 63"
    using sm x unfolding smallArrays_def by auto
qed

lemma addMoments_shape:
  "addMoments n k wn wt arrs i = Inr arrs' \<Longrightarrow> sameShape arrs arrs'"
proof (induction n arbitrary: k wn arrs)
  case 0
  then show ?case by simp
next
  case (Suc n)
  from Suc.prems obtain a where 1: "addAt arrs k i (wn * wt) = Inr a"
    and 2: "addMoments n (k + 1) (wn * wt) wt a i = Inr arrs'"
    by (auto simp add: bindE_eq_Inr)
  have "sameShape arrs a" using addAt_added [OF 1] by (simp add: added_def)
  with Suc.IH [OF 2] show ?case by (rule sameShape_trans [rotated])
qed

lemma addMoments_error:
  "addMoments n k wn wt arrs i = Inl e \<Longrightarrow> e = IndexOutOfRange"
proof (induction n arbitrary: k wn arrs)
  case 0
  then show ?case by simp
next
  case (Suc n)
  show ?case
  proof (cases "addAt arrs k i (wn * wt)")
    case (Inl e')
    with Suc.prems addAt_error show ?thesis by auto
  next
    case (Inr a)
    with Suc.prems Suc.IH show ?thesis by auto
  qed
qed

lemma addMoments_first:
  "addMoments (Suc n) k wn wt arrs i = Inr arrs' \<Longrightarrow> inRange k arrs \<and> inRange i (arrs ! nat k)"
  by (auto simp add: bindE_eq_Inr dest: addAt_inRange)

lemma foldSED_shape:
  "foldSED cs wt arrs = Inr arrs' \<Longrightarrow> sameShape arrs arrs'"
proof (induction cs arbitrary: wt arrs)
  case Nil
  then show ?case by simp
next
  case (Cons c cs)
  show ?case
  proof (cases "cs = [] \<or> c_ell c \<noteq> c_ell (hd cs)")
    case True
    with Cons.prems obtain a where 1: "addMoments numStatMoments 0 1 (wt + c_w c) arrs (c_ell c) = Inr a"
      and 2: "foldSED cs 0 a = Inr arrs'"
      by (auto simp add: Let_def bindE_eq_Inr)
    from addMoments_shape [OF 1] Cons.IH [OF 2] show ?thesis by (rule sameShape_trans)
  next
    case False
    with Cons.prems have "foldSED cs (wt + c_w c) arrs = Inr arrs'" by (simp add: Let_def)
    from Cons.IH [OF this] show ?thesis .
  qed
qed

lemma foldSED_error:
  "foldSED cs wt arrs = Inl e \<Longrightarrow> e = IndexOutOfRange"
proof (induction cs arbitrary: wt arrs)
  case Nil
  then show ?case by simp
next
  case (Cons c cs)
  show ?case
  proof (cases "cs = [] \<or> c_ell c \<noteq> c_ell (hd cs)")
    case True
    show ?thesis
    proof (cases "addMoments numStatMoments 0 1 (wt + c_w c) arrs (c_ell c)")
      case (Inl e')
      with True Cons.prems addMoments_error show ?thesis by (auto simp add: Let_def)
    next
      case (Inr a)
      with True Cons.prems Cons.IH show ?thesis by (auto simp add: Let_def)
    qed
  next
    case False
    with Cons.prems Cons.IH show ?thesis by (auto simp add: Let_def)
  qed
qed

lemma foldIFU_shape:
  "foldIFU npf cs wt arrs = Inr arrs' \<Longrightarrow> sameShape arrs arrs'"
proof (induction cs arbitrary: wt arrs)
  case Nil
  then show ?case by simp
next
  case (Cons c cs)
  show ?case
  proof (cases "cs = [] \<or> c_ell c \<noteq> c_ell (hd cs) \<or> c_l c \<noteq> c_l (hd cs)")
    case True
    with Cons.prems obtain a where
      1: "addMoments numStatMoments 0 1 (wt + c_w c) arrs (int (lellOf npf (c_ell c) (c_l c))) = Inr a"
      and 2: "foldIFU npf cs 0 a = Inr arrs'"
      by (auto simp add: Let_def bindE_eq_Inr)
    from addMoments_shape [OF 1] Cons.IH [OF 2] show ?thesis by (rule sameShape_trans)
  next
    case False
    with Cons.prems have "foldIFU npf cs (wt + c_w c) arrs = Inr arrs'" by (simp add: Let_def)
    from Cons.IH [OF this] show ?thesis .
  qed
qed

lemma foldIFU_beyond:
  "smallArrays arrs \<Longrightarrow> \<exists>c \<in> set cs. beyond npf c \<Longrightarrow> foldIFU npf cs wt arrs = Inl IndexOutOfRange"
proof (induction cs arbitrary: wt arrs)
  case Nil
  then show ?case by simp
next
  case (Cons c cs)
  show ?case
  proof (cases "cs = [] \<or> c_ell c \<noteq> c_ell (hd cs) \<or> c_l c \<noteq> c_l (hd cs)")
    case True
    show ?thesis
    proof (cases "addMoments numStatMoments 0 1 (wt + c_w c) arrs (int (lellOf npf (c_ell c) (c_l c)))")
      case (Inl e)
      with True addMoments_error [OF Inl] show ?thesis by (simp add: Let_def)
    next
      case (Inr a)
      have "inRange 0 arrs \<and> inRange (int (lellOf npf (c_ell c) (c_l c))) (arrs ! nat 0)"
        using addMoments_first [of 3 0 1 _ arrs _ a] Inr by (simp add: numStatMoments_def eval_nat_numeral)
      then have "arrs ! 0 \<in> set arrs" and "lellOf npf (c_ell c) (c_l c) < length (arrs ! 0)"
        by (simp_all add: inRange_def)
      then have "lellOf npf (c_ell c) (c_l c) < 2 ^ 63"
        using Cons.prems(1) unfolding smallArrays_def by fastforce
      then have "\<not> beyond npf c" by (simp add: beyond_def)
      with Cons.prems(2) have ex: "\<exists>c \<in> set cs. beyond npf c" by auto
      have "smallArrays a" using sameShape_small [OF addMoments_shape [OF Inr] Cons.prems(1)] .
      from Cons.IH [OF this ex] True Inr show ?thesis by (simp add: Let_def)
    qed
  next
    case False
    then have ne: "cs \<noteq> []" and same: "c_ell c = c_ell (hd cs)" "c_l c = c_l (hd cs)" by auto
    have "beyond npf c \<Longrightarrow> beyond npf (hd cs)" by (simp add: beyond_def same)
    with Cons.prems(2) ne have ex: "\<exists>c \<in> set cs. beyond npf c"
      by (metis hd_in_set set_ConsD)
    from Cons.IH [OF Cons.prems(1) ex] False show ?thesis by (simp add: Let_def)
  qed
qed

lemma sortContributions_set [simp]: "set (sortContributions cs) = set cs"
  by (simp add: sortContributions_def)

lemma recordContributions_error:
  "recordContributions s cl = Inl e \<Longrightarrow> e = IndexOutOfRange"
proof -
  assume a: "recordContributions s cl = Inl e"
  let ?cs = "sortContributions (contributions cl)"
  let ?A = "(if includeFluxDensity s then foldSED ?cs 0 (wsed s) else Inr (wsed s))"
  let ?B = "(if includeSurfaceBrightness s then foldIFU (numPixelsInFrame s) ?cs 0 (wifu s)
                else Inr (wifu s))"
  show ?thesis
  proof (cases ?A)
    case (Inl e1)
    then have "e1 = IndexOutOfRange" using foldSED_error by (auto split: if_splits)
    with a Inl show ?thesis by (simp add: recordContributions_def Let_def)
  next
    case (Inr ws)
    show ?thesis
    proof (cases ?B)
      case (Inl e2)
      then have "foldIFU (numPixelsInFrame s) ?cs 0 (wifu s) = Inl e2" by (auto split: if_splits)
      moreover have "foldIFU npf cs wt arrs = Inl x \<Longrightarrow> x = IndexOutOfRange" for npf cs wt arrs x
      proof (induction cs arbitrary: wt arrs)
        case Nil
        then show ?case by simp
      next
        case (Cons c cs)
        show ?case
        proof (cases "cs = [] \<or> c_ell c \<noteq> c_ell (hd cs) \<or> c_l c \<noteq> c_l (hd cs)")
          case True
          show ?thesis
          proof (cases "addMoments numStatMoments 0 1 (wt + c_w c) arrs (int (lellOf npf (c_ell c) (c_l c)))")
            case (Inl e')
            with True Cons.prems addMoments_error show ?thesis by (auto simp add: Let_def)
          next
            case (Inr a)
            with True Cons.prems Cons.IH show ?thesis by (auto simp add: Let_def)
          qed
        next
          case False
          with Cons.prems Cons.IH show ?thesis by (auto simp add: Let_def)
        qed
      qed
      ultimately have "e2 = IndexOutOfRange" by blast
      with a Inr Inl show ?thesis by (simp add: recordContributions_def Let_def)
    next
      case (Inr wi)
      with a \<open>?A = Inr ws\<close> show ?thesis by (simp add: recordContributions_def Let_def)
    qed
  qed
qed

lemma recordContributions_shape:
  assumes "recordContributions s cl = Inr s2"
  shows "sameShape (wsed s) (wsed s2) \<and> sameShape (wifu s) (wifu s2)"
proof -
  let ?cs = "sortContributions (contributions cl)"
  from assms obtain ws wi where
    1: "(if includeFluxDensity s then foldSED ?cs 0 (wsed s) else Inr (wsed s)) = Inr ws"
    and 2: "(if includeSurfaceBrightness s then foldIFU (numPixelsInFrame s) ?cs 0 (wifu s)
                else Inr (wifu s)) = Inr wi"
    and 3: "s2 = s\<lparr>wsed := ws, wifu := wi\<rparr>"
    by (auto simp add: recordContributions_def Let_def bindE_eq_Inr)
  have "sameShape (wsed s) ws" using 1 foldSED_shape by (auto split: if_splits)
  moreover have "sameShape (wifu s) wi" using 2 foldIFU_shape by (auto split: if_splits)
  ultimately show ?thesis using 3 by simp
qed

lemma recordContributions_beyond:
  assumes "includeSurfaceBrightness s" and "smallArrays (wifu s)"
    and "\<exists>c \<in> set (contributions cl). beyond (numPixelsInFrame s) c"
  shows "recordContributions s cl = Inl IndexOutOfRange"
proof (cases "recordContributions s cl")
  case (Inl e)
  with recordContributions_error [OF Inl] show ?thesis by simp
next
  case (Inr s2)
  let ?cs = "sortContributions (contributions cl)"
  from Inr assms(1) obtain wi where
    "foldIFU (numPixelsInFrame s) ?cs 0 (wifu s) = Inr wi"
    by (auto simp add: recordContributions_def Let_def bindE_eq_Inr)
  moreover have "foldIFU (numPixelsInFrame s) ?cs 0 (wifu s) = Inl IndexOutOfRange"
    by (rule foldIFU_beyond [OF assms(2)]) (use assms(3) in simp)
  ultimately show ?thesis by simp
qed

lemma lellOf_negative:
  assumes "p + e * int npf < 0" and "- (2 ^ 63) \<le> p + e * int npf"
  shows "lellOf npf e p \<ge> 2 ^ 63"
proof -
  let ?x = "p + e * int npf"
  have "(?x + 2 ^ 64) mod 2 ^ 64 = ?x + 2 ^ 64"
    using assms by (intro mod_pos_pos_trivial) simp_all
  moreover have "(?x + 2 ^ 64) mod 2 ^ 64 = ?x mod 2 ^ 64"
    by (rule mod_add_self2)
  ultimately have "?x mod 2 ^ 64 = ?x + 2 ^ 64"
    by simp
  then have "lellOf npf e p = nat (?x + 2 ^ 64)"
    by (simp add: lellOf_def to_size_t_def size_t_max_def)
  then show ?thesis using assms by simp
qed

lemma localList_setLocalList [simp]: "localList (setLocalList ls t cl) t = cl"
  by (induction ls) (auto simp add: localList_def)

lemma setLocalList_mem: "(t, cl) \<in> set (setLocalList ls t cl)"
  by (induction ls) auto

lemma statisticsBlock_appends:
  assumes "statisticsBlock t s1 pp l tau = Inr s'" and "recordStatistics s1"
  shows "\<exists>cs. contributions (localList (contributionLists s') t)
            = cs @ [\<lparr>c_ell = lambdagrid_ell s1 (lambda pp), c_l = l,
                     c_w = luminosity pp * exp (- tau)\<rparr>]"
    and "sameShape (wifu s1) (wifu s') \<and> sameShape (wsed s1) (wsed s')"
proof -
  let ?cl = "localList (contributionLists s1) t"
  from assms obtain r where
    r: "(if \<not> hasHistoryIndex ?cl (historyIndex pp)
         then bindE (recordContributions s1 ?cl) (\<lambda>s2. Inr (s2, reset (historyIndex pp)))
         else Inr (s1, ?cl)) = Inr r"
    and s': "s' = (fst r)\<lparr>contributionLists :=
                    setLocalList (contributionLists (fst r)) t
                      (addContribution (snd r) (lambdagrid_ell s1 (lambda pp)) l
                         (luminosity pp * exp (- tau)))\<rparr>"
    by (auto simp add: statisticsBlock_def Let_def bindE_eq_Inr)
  show "\<exists>cs. contributions (localList (contributionLists s') t)
            = cs @ [\<lparr>c_ell = lambdagrid_ell s1 (lambda pp), c_l = l,
                     c_w = luminosity pp * exp (- tau)\<rparr>]"
    by (simp add: s' addContribution_def)
  have "fst r = s1 \<or> recordContributions s1 ?cl = Inr (fst r)"
    using r by (auto simp add: bindE_eq_Inr split: if_splits)
  then show "sameShape (wifu s1) (wifu s') \<and> sameShape (wsed s1) (wsed s')"
    using recordContributions_shape [of s1 ?cl "fst r"] by (auto simp add: s')
qed

lemma statisticsBlock_lists:
  assumes "statisticsBlock t s1 pp l tau = Inr s'" and "recordStatistics s1"
  shows "\<exists>ls cl. contributionLists s' = setLocalList ls t cl"
proof -
  from assms obtain r where
    "s' = (fst r)\<lparr>contributionLists :=
                    setLocalList (contributionLists (fst r)) t
                      (addContribution (snd r) (lambdagrid_ell s1 (lambda pp)) l
                         (luminosity pp * exp (- tau)))\<rparr>"
    by (auto simp add: statisticsBlock_def Let_def bindE_eq_Inr)
  then have "contributionLists s' = setLocalList (contributionLists (fst r)) t
                      (addContribution (snd r) (lambdagrid_ell s1 (lambda pp)) l
                         (luminosity pp * exp (- tau)))"
    by simp
  then show ?thesis by blast
qed

lemma flushLists_beyond:
  assumes "includeSurfaceBrightness s" and "smallArrays (wifu s)"
    and "\<exists>tc \<in> set ls. \<exists>c \<in> set (contributions (snd tc)). beyond (numPixelsInFrame s) c"
  shows "flushLists s ls = Inl IndexOutOfRange"
  using assms
proof (induction ls arbitrary: s)
  case Nil
  then show ?case by simp
next
  case (Cons tc rest)
  show ?case
  proof (cases "recordContributions s (snd tc)")
    case (Inl e)
    with recordContributions_error [OF Inl] show ?thesis by simp
  next
    case (Inr s1)
    have nb: "\<not> (\<exists>c \<in> set (contributions (snd tc)). beyond (numPixelsInFrame s) c)"
      using recordContributions_beyond [OF Cons.prems(1,2), of "snd tc"] Inr by auto
    with Cons.prems(3) have ex: "\<exists>tc \<in> set rest. \<exists>c \<in> set (contributions (snd tc)). beyond (numPixelsInFrame s) c"
      by auto
    have f: "includeSurfaceBrightness s1" "numPixelsInFrame s1 = numPixelsInFrame s"
      using recordContributions_sed [OF Inr] Cons.prems(1) by simp_all
    have sm: "smallArrays (wifu s1)"
      using recordContributions_shape [OF Inr] Cons.prems(2) sameShape_small by blast
    have "flushLists s1 rest = Inl IndexOutOfRange"
      using Cons.IH [OF f(1) sm] ex f(2) by simp
    with Inr show ?thesis by simp
  qed
qed

text \<open>
  C10 (as amended). With statistics and IFU output enabled, a \<open>detect\<close> call with \<open>l < 0\<close>
  that completes has appended the contribution \<open>(ell, l, L_ext)\<close> to the thread's list.
  When \<open>ell * Nx * Ny < |l|\<close> (for a wavelength bin \<open>ell \<ge> 0\<close>) the index
  \<open>l + ell * Nx * Ny\<close> is negative; as a \<open>size_t\<close> it is at least \<open>2 ^ 63\<close>, outside every
  moment array, and folding that list, by \<open>recordContributions\<close> or by \<open>flush\<close>, ends
  in an access out of range.
\<close>

theorem missed_pixel_contribution_is_folded_out_of_range:
  assumes "recordStatistics s" and "includeSurfaceBrightness s"
    and "l < 0" and "0 \<le> lambdagrid_ell s (lambda pp)"
    and "lambdagrid_ell s (lambda pp) * int (numPixelsInFrame s) < - l"
    and "- (2 ^ 63) \<le> l"
    and "smallArrays (wifu s)"
    and "detect t s pp l tau = Inr s'"
  shows "(\<exists>cs. contributions (localList (contributionLists s') t)
            = cs @ [\<lparr>c_ell = lambdagrid_ell s (lambda pp), c_l = l,
                     c_w = luminosity pp * exp (- tau)\<rparr>])
       \<and> recordContributions s' (localList (contributionLists s') t) = Inl IndexOutOfRange
       \<and> flush s' = Inl IndexOutOfRange"
proof -
  let ?ell = "lambdagrid_ell s (lambda pp)"
  let ?s1 = "s\<lparr>sed := sed s', ifu := ifu s'\<rparr>"
  let ?c = "\<lparr>c_ell = ?ell, c_l = l, c_w = luminosity pp * exp (- tau)\<rparr>"
  have sb: "statisticsBlock t ?s1 pp l tau = Inr s'" by (rule detect_parts(3) [OF assms(8)])
  have rs: "recordStatistics ?s1" using assms(1) by simp
  from statisticsBlock_appends(1) [OF sb rs] obtain cs where
    cs: "contributions (localList (contributionLists s') t) = cs @ [?c]" by auto
  have fr: "includeSurfaceBrightness s'" "numPixelsInFrame s' = numPixelsInFrame s"
    using statisticsBlock_frame [OF sb] assms(2) by simp_all
  have sm: "smallArrays (wifu s')"
    using statisticsBlock_appends(2) [OF sb rs] assms(7) sameShape_small by fastforce
  have "0 \<le> ?ell * int (numPixelsInFrame s)" using assms(4) by simp
  then have "l + ?ell * int (numPixelsInFrame s) < 0" "- (2 ^ 63) \<le> l + ?ell * int (numPixelsInFrame s)"
    using assms(5,6) by linarith+
  then have bey: "beyond (numPixelsInFrame s') ?c"
    using lellOf_negative [of l ?ell "numPixelsInFrame s"] by (simp add: beyond_def fr)
  have ex: "\<exists>c \<in> set (contributions (localList (contributionLists s') t)). beyond (numPixelsInFrame s') c"
    using bey cs by auto
  have rc: "recordContributions s' (localList (contributionLists s') t) = Inl IndexOutOfRange"
    by (rule recordContributions_beyond [OF fr(1) sm ex])
  have mem: "(t, localList (contributionLists s') t) \<in> set (contributionLists s')"
    using statisticsBlock_lists [OF sb rs] setLocalList_mem by fastforce
  have "flushLists s' (contributionLists s') = Inl IndexOutOfRange"
    by (rule flushLists_beyond [OF fr(1) sm]) (use mem ex in force)
  then have fl: "flush s' = Inl IndexOutOfRange" by (simp add: flush_def)
  from cs rc fl show ?thesis by blast
qed

lemma detect_missedBlue: "detect 0 ifuRecorder missedBlue (- 1) 0 = Inr ifuRecorderMissedBlue"
  by (simp add: detect_def recordContributions_def sortContributions_def Let_def
        localList_def hasHistoryIndex_def reset_def addContribution_def
        ifuRecorderMissedBlue_def ifuRecorder_def missedBlue_def emptyRecorder_def)

text \<open>C10, witness: a packet in wavelength bin 0 that misses the frame (\<open>l = - 1\<close>).\<close>

theorem missed_pixel_contribution_is_folded_out_of_range_witness:
  "recordStatistics ifuRecorder \<and> includeSurfaceBrightness ifuRecorder \<and> (- 1 :: int) < 0
   \<and> 0 \<le> lambdagrid_ell ifuRecorder (lambda missedBlue)
   \<and> lambdagrid_ell ifuRecorder (lambda missedBlue) * int (numPixelsInFrame ifuRecorder) < - (- 1)
   \<and> - (2 ^ 63) \<le> (- 1 :: int)
   \<and> smallArrays (wifu ifuRecorder)
   \<and> detect 0 ifuRecorder missedBlue (- 1) 0 = Inr ifuRecorderMissedBlue
   \<and> (\<exists>cs. contributions (localList (contributionLists ifuRecorderMissedBlue) 0)
            = cs @ [\<lparr>c_ell = lambdagrid_ell ifuRecorder (lambda missedBlue), c_l = - 1,
                     c_w = luminosity missedBlue * exp (- 0)\<rparr>])
   \<and> recordContributions ifuRecorderMissedBlue
        (localList (contributionLists ifuRecorderMissedBlue) 0) = Inl IndexOutOfRange
   \<and> flush ifuRecorderMissedBlue = Inl IndexOutOfRange"
proof -
  have h: "recordStatistics ifuRecorder" "includeSurfaceBrightness ifuRecorder" "(- 1 :: int) < 0"
    "0 \<le> lambdagrid_ell ifuRecorder (lambda missedBlue)"
    "lambdagrid_ell ifuRecorder (lambda missedBlue) * int (numPixelsInFrame ifuRecorder) < - (- 1)"
    "- (2 ^ 63) \<le> (- 1 :: int)"
    "smallArrays (wifu ifuRecorder)"
    by (simp_all add: ifuRecorder_def missedBlue_def emptyRecorder_def smallArrays_def)
  from missed_pixel_contribution_is_folded_out_of_range [OF h detect_missedBlue] h detect_missedBlue
  show ?thesis by blast
qed

lemma detect_missedRed: "detect 0 ifuRecorder missedRed (- 1) 0 = Inr ifuRecorderMissedRed"
  by (simp add: detect_def recordContributions_def sortContributions_def Let_def
        localList_def hasHistoryIndex_def reset_def addContribution_def
        ifuRecorderMissedRed_def ifuRecorder_def missedRed_def emptyRecorder_def)

lemma fold_missedRed:
  "recordContributions ifuRecorderMissedRed (localList (contributionLists ifuRecorderMissedRed) 0)
     = Inr ifuRecorderMissedRedFolded"
  by (simp add: recordContributions_def sortContributions_def Let_def localList_def
        addMoments_numStatMoments addAt_def inRange_def lellOf_def to_size_t_def
        size_t_max_def
        ifuRecorderMissedRedFolded_def ifuRecorderMissedRed_def ifuRecorder_def emptyRecorder_def)

text \<open>
  C10, counterexample to the claim as stated, which has \<open>ell * Nx * Ny \<le> |l|\<close>. At
  \<open>l = - 1\<close>, \<open>ell = 1\<close> and a frame of one pixel, \<open>ell * Nx * Ny = |l|\<close> and the index
  \<open>l + ell * Nx * Ny\<close> is 0: the fold completes, and adds the moments to cell 0 (the
  pixel of wavelength bin 0).
\<close>

theorem missed_pixel_at_equality_counterexample:
  "recordStatistics ifuRecorder \<and> includeSurfaceBrightness ifuRecorder
   \<and> (- 1 :: int) < 0
   \<and> lambdagrid_ell ifuRecorder (lambda missedRed) * int (numPixelsInFrame ifuRecorder) \<le> \<bar>- 1\<bar>
   \<and> detect 0 ifuRecorder missedRed (- 1) 0 = Inr ifuRecorderMissedRed
   \<and> recordContributions ifuRecorderMissedRed
        (localList (contributionLists ifuRecorderMissedRed) 0) = Inr ifuRecorderMissedRedFolded
   \<and> int (lellOf (numPixelsInFrame ifuRecorder) (lambdagrid_ell ifuRecorder (lambda missedRed)) (- 1)) = 0
   \<and> inRange 0 (wifu ifuRecorderMissedRed ! 0)"
proof -
  have "recordStatistics ifuRecorder \<and> includeSurfaceBrightness ifuRecorder
   \<and> lambdagrid_ell ifuRecorder (lambda missedRed) * int (numPixelsInFrame ifuRecorder) \<le> \<bar>- 1\<bar>
   \<and> int (lellOf (numPixelsInFrame ifuRecorder) (lambdagrid_ell ifuRecorder (lambda missedRed)) (- 1)) = 0
   \<and> inRange 0 (wifu ifuRecorderMissedRed ! 0)"
    by (simp add: ifuRecorder_def ifuRecorderMissedRed_def missedRed_def emptyRecorder_def lellOf_def
          to_size_t_def inRange_def)
  with detect_missedRed fold_missedRed show ?thesis by simp
qed

section \<open>VoronoiMeshSnapshot: the imported masses\<close>

lemma rowMasses_ok:
  assumes "rowsReadable s" and "m < length (propv s)"
  shows "rowMasses s (propv s ! m) (cellv s ! m)
           = Inr (originalMassOf s m, metallicMassOf s m, effectiveMassOf s m)"
proof -
  have mem: "propv s ! m \<in> set (propv s)" using assms(2) by simp
  from assms(1) mem have
    a: "(if massIndex s \<noteq> 0 then inRange (massIndex s) (propv s ! m)
         else inRange (densityIndex s) (propv s ! m))"
    and b: "metallicityIndex s \<ge> 0 \<longrightarrow> inRange (metallicityIndex s) (propv s ! m)"
    unfolding rowsReadable_def by blast+
  show ?thesis
    using a b
    by (simp add: rowMasses_def propAt_def Let_def originalMassOf_def metallicMassOf_def
          effectiveMassOf_def split: if_splits)
qed

lemma massLoop_ok:
  assumes "rowsReadable s" and "m \<le> length (propv s)" and "length rho = length (propv s)"
  shows "massLoop s m rho tot =
     Inr (densitiesFrom s m rho,
          fst tot + sum_list (map (originalMassOf s) [m..<length (propv s)]),
          fst (snd tot) + sum_list (map (metallicMassOf s) [m..<length (propv s)]),
          snd (snd tot) + sum_list (map (effectiveMassOf s) [m..<length (propv s)]))"
  using assms
proof (induction s m rho tot rule: massLoop.induct)
  case (1 s m rho tot)
  let ?n = "length (propv s)"
  show ?case
  proof (cases "m \<ge> ?n")
    case True
    with "1.prems" have "m = ?n" by simp
    then show ?thesis
      using "1.prems" by (subst massLoop.simps) (simp add: densitiesFrom_def)
  next
    case False
    then have lt: "m < ?n" by simp
    have cell: "cellAt (cellv s) m = Inr (cellv s ! m)"
      using lt "1.prems"(1) by (simp add: cellAt_def rowsReadable_def)
    note rm = rowMasses_ok [OF "1.prems"(1) lt]
    let ?rho = "rho[m := effectiveMassOf s m / volume (cellv s ! m)]"
    let ?tot = "(fst tot + originalMassOf s m, fst (snd tot) + metallicMassOf s m,
                 snd (snd tot) + effectiveMassOf s m)"
    have ih: "massLoop s (m + 1) ?rho ?tot =
       Inr (densitiesFrom s (m + 1) ?rho,
          fst ?tot + sum_list (map (originalMassOf s) [m + 1..<?n]),
          fst (snd ?tot) + sum_list (map (metallicMassOf s) [m + 1..<?n]),
          snd (snd ?tot) + sum_list (map (effectiveMassOf s) [m + 1..<?n]))"
      using "1.IH" [OF False cell rm refl refl "1.prems"(1)] lt "1.prems"(3) by simp
    have up: "[m..<?n] = m # [m + 1..<?n]" using lt by (simp add: upt_conv_Cons)
    have dens: "densitiesFrom s (m + 1) ?rho = densitiesFrom s m rho"
      using lt "1.prems"(3)
      by (simp add: densitiesFrom_def up take_Suc_conv_app_nth)
    show ?thesis
      apply (subst massLoop.simps)
      using False cell rm ih dens
      apply (simp add: up)
      done
  qed
qed

lemma densitiesFrom_0:
  "densitiesFrom s 0 rho = map (\<lambda>k. effectiveMassOf s k / volume (cellv s ! k)) [0..<length (propv s)]"
  by (simp add: densitiesFrom_def)

lemma readAndClose_masses_result:
  assumes "rowsReadable s"
  shows "readAndClose_masses s =
     Inr (if someTotalNegative s
          then s\<lparr>propv := [], cellv := [], rhov := [], mass := 0,
                 warnings := warnings s @
                   [''  Total imported mass is negative; suppressing the complete mass distribution'']\<rparr>
          else s\<lparr>rhov := map (\<lambda>m. effectiveMassOf s m / volume (cellv s ! m)) [0..<length (propv s)],
                 mass := totalOf (effectiveMassOf s) (length (propv s))\<rparr>)"
  unfolding readAndClose_masses_def Let_def
  by (subst massLoop_ok [OF assms]) (simp_all add: densitiesFrom_0 someTotalNegative_def totalOf_def)

text \<open>
  C8 (as amended). For every import whose rows can be read, the mass block of
  \<open>readAndClose\<close> ends without an error. Whenever one of the three totals (original,
  metallic, effective) is negative, it warns and suppresses the whole distribution: the
  total effective mass becomes 0 and the rows, the densities and the cells are cleared.
  Whenever all three totals are at least 0, the distribution is kept: rows and cells are
  unchanged, every cell gets its density and \<open>_mass\<close> is the total effective mass.
\<close>

theorem readAndClose_suppresses_negative_totals:
  assumes "rowsReadable s"
  shows "readAndClose_masses s =
     Inr (if someTotalNegative s
          then s\<lparr>propv := [], cellv := [], rhov := [], mass := 0,
                 warnings := warnings s @
                   [''  Total imported mass is negative; suppressing the complete mass distribution'']\<rparr>
          else s\<lparr>rhov := map (\<lambda>m. effectiveMassOf s m / volume (cellv s ! m)) [0..<length (propv s)],
                 mass := totalOf (effectiveMassOf s) (length (propv s))\<rparr>)"
  by (rule readAndClose_masses_result [OF assms])

lemma rowsReadable_massless: "rowsReadable masslessImport"
  by (simp add: rowsReadable_def masslessImport_def inRange_def)

lemma rowsReadable_negative: "rowsReadable negativeImport"
  by (simp add: rowsReadable_def negativeImport_def masslessImport_def inRange_def)

lemma totals_massless:
  "totalOf (originalMassOf masslessImport) (length (propv masslessImport)) = 0"
  "totalOf (metallicMassOf masslessImport) (length (propv masslessImport)) = 0"
  "totalOf (effectiveMassOf masslessImport) (length (propv masslessImport)) = 0"
  by (simp_all add: totalOf_def originalMassOf_def metallicMassOf_def effectiveMassOf_def
        masslessImport_def)

text \<open>C8, witness: one site of mass \<open>- 1\<close>; the distribution is suppressed.\<close>

theorem readAndClose_suppresses_negative_totals_witness:
  "rowsReadable negativeImport \<and> someTotalNegative negativeImport
   \<and> readAndClose_masses negativeImport =
       Inr (negativeImport\<lparr>propv := [], cellv := [], rhov := [], mass := 0,
              warnings := [''  Total imported mass is negative; suppressing the complete mass distribution'']\<rparr>)"
proof -
  have n: "someTotalNegative negativeImport"
    by (simp add: someTotalNegative_def totalOf_def originalMassOf_def negativeImport_def
          masslessImport_def)
  have w: "warnings negativeImport = []"
    by (simp add: negativeImport_def masslessImport_def)
  from readAndClose_suppresses_negative_totals [OF rowsReadable_negative] n w rowsReadable_negative
  show ?thesis by simp
qed

text \<open>
  C8, counterexample to the claim as stated, which suppresses when a total is \<open>\<le> 0\<close>. One
  site of mass 0: all three totals are 0, and the code keeps the row and the cell and
  logs no warning (its test is \<open>< 0\<close>).
\<close>

theorem readAndClose_zero_total_counterexample:
  "totalOf (originalMassOf masslessImport) (length (propv masslessImport)) \<le> 0
   \<and> totalOf (metallicMassOf masslessImport) (length (propv masslessImport)) \<le> 0
   \<and> totalOf (effectiveMassOf masslessImport) (length (propv masslessImport)) \<le> 0
   \<and> readAndClose_masses masslessImport = Inr (masslessImport\<lparr>rhov := [0], mass := 0\<rparr>)
   \<and> cellv (masslessImport\<lparr>rhov := [0], mass := 0\<rparr>) = [unitCell]
   \<and> propv (masslessImport\<lparr>rhov := [0], mass := 0\<rparr>) = [[1 / 2, 1 / 2, 1 / 2, 0]]
   \<and> warnings (masslessImport\<lparr>rhov := [0], mass := 0\<rparr>) = []"
proof -
  have nn: "\<not> someTotalNegative masslessImport"
    by (simp add: someTotalNegative_def totals_massless)
  have r: "readAndClose_masses masslessImport = Inr (masslessImport\<lparr>rhov := [0], mass := 0\<rparr>)"
    unfolding readAndClose_masses_result [OF rowsReadable_massless]
    using nn totals_massless(3)
    by (simp add: effectiveMassOf_def metallicMassOf_def originalMassOf_def masslessImport_def)
  show ?thesis
    using r totals_massless by (simp add: masslessImport_def)
qed

end
